theory Spec2Isabelle
  imports Main "HOL-Library.List_Lexorder" "HOL-Library.Char_ord"
begin

section \<open>Strings and byte slices\<close>

text \<open>
  Go strings and byte slices are sequences of bytes; both are modelled as \<open>string\<close>
  (a list of 8-bit characters). The functions of this section are the ones of Go's
  \<open>strings\<close> package that the vault calls.
\<close>

definition HasPrefix :: "string \<Rightarrow> string \<Rightarrow> bool" where
  "HasPrefix s p = (take (length p) s = p)"

definition HasSuffix :: "string \<Rightarrow> string \<Rightarrow> bool" where
  "HasSuffix s p = (length p \<le> length s \<and> drop (length s - length p) s = p)"

definition TrimPrefix :: "string \<Rightarrow> string \<Rightarrow> string" where
  "TrimPrefix s p = (if HasPrefix s p then drop (length p) s else s)"

definition TrimSuffix :: "string \<Rightarrow> string \<Rightarrow> string" where
  "TrimSuffix s p = (if HasSuffix s p then take (length s - length p) s else s)"

text \<open>
  \<open>strings.Split(s, sep)\<close> for a one-byte separator: the pieces between the
  separators, so the empty string splits into one empty piece. The last case
  alternative is never taken (\<open>Split\<close> returns at least one piece); it keeps the
  definition total.
\<close>

fun Split :: "string \<Rightarrow> char \<Rightarrow> string list" where
  "Split [] sep = [[]]"
| "Split (c # cs) sep =
     (if c = sep then [] # Split cs sep
      else (case Split cs sep of w # ws \<Rightarrow> (c # w) # ws | [] \<Rightarrow> [[c]]))"

text \<open>
  \<open>strings.SplitN(s, sep, 2)\<close> for a one-byte separator: the string itself when it
  has no separator, and otherwise the part before the first separator and the part
  after it.
\<close>

definition SplitN2 :: "string \<Rightarrow> char \<Rightarrow> string list" where
  "SplitN2 s sep =
     (case dropWhile (\<lambda>c. c \<noteq> sep) s of
        [] \<Rightarrow> [s]
      | _ # rest \<Rightarrow> [takeWhile (\<lambda>c. c \<noteq> sep) s, rest])"

text \<open>
  \<open>strings.TrimSpace\<close> removes the leading and the trailing white space, as
  \<open>unicode.IsSpace\<close> defines it. In a byte string the white-space runes are the
  following UTF-8 sequences: the six of ASCII, U+0085, U+00A0, U+1680, U+2000 to U+200A,
  U+2028, U+2029, U+202F, U+205F and U+3000.
\<close>

definition space_runes :: "string list" where
  "space_runes =
     [[CHR 0x09], [CHR 0x0A], [CHR 0x0B], [CHR 0x0C], [CHR 0x0D], [CHR 0x20],
      [CHR 0xC2, CHR 0x85], [CHR 0xC2, CHR 0xA0],
      [CHR 0xE1, CHR 0x9A, CHR 0x80],
      [CHR 0xE2, CHR 0x80, CHR 0x80], [CHR 0xE2, CHR 0x80, CHR 0x81],
      [CHR 0xE2, CHR 0x80, CHR 0x82], [CHR 0xE2, CHR 0x80, CHR 0x83],
      [CHR 0xE2, CHR 0x80, CHR 0x84], [CHR 0xE2, CHR 0x80, CHR 0x85],
      [CHR 0xE2, CHR 0x80, CHR 0x86], [CHR 0xE2, CHR 0x80, CHR 0x87],
      [CHR 0xE2, CHR 0x80, CHR 0x88], [CHR 0xE2, CHR 0x80, CHR 0x89],
      [CHR 0xE2, CHR 0x80, CHR 0x8A],
      [CHR 0xE2, CHR 0x80, CHR 0xA8], [CHR 0xE2, CHR 0x80, CHR 0xA9],
      [CHR 0xE2, CHR 0x80, CHR 0xAF], [CHR 0xE2, CHR 0x81, CHR 0x9F],
      [CHR 0xE3, CHR 0x80, CHR 0x80]]"

definition leading_space :: "string \<Rightarrow> nat" where
  "leading_space s =
     (case find (HasPrefix s) space_runes of None \<Rightarrow> 0 | Some w \<Rightarrow> length w)"

definition trailing_space :: "string \<Rightarrow> nat" where
  "trailing_space s =
     (case find (HasSuffix s) space_runes of None \<Rightarrow> 0 | Some w \<Rightarrow> length w)"

lemma space_runes_nonempty: "w \<in> set space_runes \<Longrightarrow> 0 < length w"
  by (auto simp: space_runes_def)

lemma leading_space_le: "leading_space s \<le> length s"
proof (cases "find (HasPrefix s) space_runes")
  case None
  then show ?thesis by (simp add: leading_space_def)
next
  case (Some w)
  then have "HasPrefix s w" by (auto simp: find_Some_iff)
  then have "length w \<le> length s"
    by (metis HasPrefix_def length_take min.cobounded1)
  with Some show ?thesis by (simp add: leading_space_def)
qed

lemma leading_space_pos:
  "leading_space s \<noteq> 0 \<Longrightarrow> length s - leading_space s < length s"
  using leading_space_le [of s] by (cases s) auto

lemma trailing_space_pos:
  "trailing_space s \<noteq> 0 \<Longrightarrow> s \<noteq> []"
  by (auto simp: trailing_space_def HasSuffix_def find_Some_iff
      dest!: space_runes_nonempty split: option.splits)

function TrimLeftSpace :: "string \<Rightarrow> string" where
  "TrimLeftSpace s =
     (if leading_space s = 0 then s else TrimLeftSpace (drop (leading_space s) s))"
  by pat_completeness auto
termination
  by (relation "measure length") (auto simp: leading_space_pos)

function TrimRightSpace :: "string \<Rightarrow> string" where
  "TrimRightSpace s =
     (if trailing_space s = 0 then s
      else TrimRightSpace (take (length s - trailing_space s) s))"
  by pat_completeness auto
termination
proof (relation "measure length")
  show "wf (measure length)" by simp
next
  fix s :: string
  assume "trailing_space s \<noteq> 0"
  then have "0 < trailing_space s" "s \<noteq> []"
    using trailing_space_pos by auto
  then show "(take (length s - trailing_space s) s, s) \<in> measure length"
    by (cases s) auto
qed

definition TrimSpace :: "string \<Rightarrow> string" where
  "TrimSpace s = TrimRightSpace (TrimLeftSpace s)"

section \<open>Field identifiers and the scope grammar\<close>

text \<open>
  \<open>validIDPart\<close> is the regular expression \<^verbatim>\<open>^[a-zA-Z0-9_-]+$\<close>: a non-empty
  string of ASCII letters, digits, underscores and hyphens.
\<close>

definition id_char :: "char \<Rightarrow> bool" where
  "id_char c =
     ((CHR ''a'' \<le> c \<and> c \<le> CHR ''z'') \<or> (CHR ''A'' \<le> c \<and> c \<le> CHR ''Z'') \<or>
      (CHR ''0'' \<le> c \<and> c \<le> CHR ''9'') \<or> c = CHR ''_'' \<or> c = CHR ''-'')"

definition validIDPart :: "string \<Rightarrow> bool" where
  "validIDPart s = (s \<noteq> [] \<and> list_all id_char s)"

datatype id_error = BadShape | BadCategory | BadFieldName

text \<open>\<open>ValidateFieldID\<close>: \<open>None\<close> is Go's nil error.\<close>

definition ValidateFieldID :: "string \<Rightarrow> id_error option" where
  "ValidateFieldID fid =
     (case SplitN2 fid (CHR ''.'') of
        [cat, name] \<Rightarrow>
          if cat = [] \<or> name = [] then Some BadShape
          else if \<not> validIDPart cat then Some BadCategory
          else if \<not> validIDPart name then Some BadFieldName
          else None
      | _ \<Rightarrow> Some BadShape)"

definition ValidCategoryName :: "string \<Rightarrow> bool" where
  "ValidCategoryName name = (name \<noteq> [] \<and> validIDPart name)"

text \<open>
  \<open>ScopeAllows\<close> loops over the patterns of the scope; \<open>scope_loop\<close> is that loop,
  with its early returns and its \<open>continue\<close>.
\<close>

fun scope_loop :: "string list \<Rightarrow> string \<Rightarrow> bool" where
  "scope_loop [] fieldID = False"
| "scope_loop (p0 # ps) fieldID =
     (let p = TrimSpace p0 in
      if p = ''*'' then True
      else if HasSuffix p ''.*'' then
        (let category = TrimSuffix p ''.*'' in
         if HasPrefix fieldID (category @ ''.'') then True
         else scope_loop ps fieldID)
      else if p = fieldID then True
      else scope_loop ps fieldID)"

definition ScopeAllows :: "string \<Rightarrow> string \<Rightarrow> bool" where
  "ScopeAllows scope fieldID = scope_loop (Split scope (CHR '','')) fieldID"

fun category_loop :: "string list \<Rightarrow> string \<Rightarrow> bool" where
  "category_loop [] category = False"
| "category_loop (p0 # ps) category =
     (let p = TrimSpace p0 in
      if p = ''*'' then True
      else if HasSuffix p ''.*'' then
        (if TrimSuffix p ''.*'' = category then True
         else category_loop ps category)
      else if HasPrefix p (category @ ''.'') then True
      else category_loop ps category)"

definition ScopeAllowsCategory :: "string \<Rightarrow> string \<Rightarrow> bool" where
  "ScopeAllowsCategory scope category = category_loop (Split scope (CHR '','')) category"

text \<open>
  The scope grammar as the specification words it: a pattern is \<open>*\<close>, or
  \<open>category.*\<close>, or anything else, which stands for one identifier.
  \<open>id_prefix\<close> is the part of an identifier before its first dot.
\<close>

definition id_prefix :: "string \<Rightarrow> string" where
  "id_prefix fid = takeWhile (\<lambda>c. c \<noteq> CHR ''.'') fid"

definition pattern_matches :: "string \<Rightarrow> string \<Rightarrow> bool" where
  "pattern_matches p fid =
     (if p = ''*'' then True
      else if HasSuffix p ''.*'' then id_prefix fid = TrimSuffix p ''.*''
      else p = fid)"

definition scope_patterns :: "string \<Rightarrow> string list" where
  "scope_patterns scope = map TrimSpace (Split scope (CHR '',''))"

definition spec_allows :: "string \<Rightarrow> string \<Rightarrow> bool" where
  "spec_allows scope fid = list_ex (\<lambda>p. pattern_matches p fid) (scope_patterns scope)"

section \<open>Primitives outside the repository\<close>

text \<open>
  The vault calls the Go standard library and \<open>golang.org/x/crypto\<close> for its
  cryptography and its encodings. These functions are parameters of the model: every
  operation takes a record of them, and a theorem that needs a property of one of them
  (that opening a sealed message gives the message back, that no two of the values at
  hand have the same SHA-256 digest) states it as a hypothesis.

  \<^item> \<open>sha256\<close>: \<open>sha256.Sum256\<close>;
  \<^item> \<open>argon2id\<close>: \<open>argon2.IDKey(combined, salt, 3, 64 * 1024, 1, 32)\<close>;
  \<^item> \<open>hkdf_sha256 secret salt info\<close>: the byte stream of
    \<open>hkdf.New(sha256.New, secret, salt, info)\<close>, by position;
  \<^item> \<open>gcm_seal key nonce plaintext\<close> and \<open>gcm_open key nonce ciphertext\<close>:
    \<open>Seal\<close> and \<open>Open\<close> of AES-GCM with no associated data;
  \<^item> \<open>b64_encode\<close>, \<open>b64_decode\<close>: \<open>base64.StdEncoding\<close>;
  \<^item> \<open>parse_duration\<close>: \<open>time.ParseDuration\<close>, in nanoseconds.
\<close>

record prims =
  sha256 :: "string \<Rightarrow> string"
  argon2id :: "string \<Rightarrow> string \<Rightarrow> string"
  hkdf_sha256 :: "string \<Rightarrow> string \<Rightarrow> string \<Rightarrow> nat \<Rightarrow> char"
  gcm_seal :: "string \<Rightarrow> string \<Rightarrow> string \<Rightarrow> string"
  gcm_open :: "string \<Rightarrow> string \<Rightarrow> string \<Rightarrow> string option"
  b64_encode :: "string \<Rightarrow> string"
  b64_decode :: "string \<Rightarrow> string option"
  parse_duration :: "string \<Rightarrow> int option"

text \<open>
  A time is a count of nanoseconds since the Unix epoch. The store writes times as
  RFC 3339 text in UTC, which has second precision, and parses the text when it reads:
  \<open>rfc3339 t\<close> is the time that the text of \<open>t\<close> parses back to. \<open>zero_time\<close> is
  the zero value of \<open>time.Time\<close> (1 January of year 1).
\<close>

type_synonym time = int

definition rfc3339 :: "time \<Rightarrow> time" where
  "rfc3339 t = (t div 1000000000) * 1000000000"

definition zero_time :: time where
  "zero_time = - 62135596800 * 1000000000"

text \<open>
  What an operation reads from the world: the clock (\<open>time.Now()\<close>, read once per
  operation) and the system's random source (\<open>crypto/rand\<close>), which fails or gives
  bytes. \<open>rand_bytes\<close> are the bytes of the operation's own draw (a nonce or a token),
  \<open>id_bytes\<close> those of the audit entry's identifier.
\<close>

record env =
  now :: time
  rand_fail :: bool
  rand_bytes :: "nat \<Rightarrow> char"
  id_bytes :: "nat \<Rightarrow> char"

definition rand_Read :: "env \<Rightarrow> nat \<Rightarrow> string option" where
  "rand_Read e n = (if rand_fail e then None else Some (map (rand_bytes e) [0..<n]))"

subsection \<open>Hexadecimal\<close>

definition hex_digit :: "nat \<Rightarrow> char" where
  "hex_digit n = ''0123456789abcdef'' ! n"

definition hex_byte :: "char \<Rightarrow> string" where
  "hex_byte b = [hex_digit (of_char b div 16), hex_digit (of_char b mod 16)]"

definition hex_EncodeToString :: "string \<Rightarrow> string" where
  "hex_EncodeToString bs = concat (map hex_byte bs)"

definition fromHexChar :: "char \<Rightarrow> nat option" where
  "fromHexChar c =
     (if CHR ''0'' \<le> c \<and> c \<le> CHR ''9'' then Some (of_char c - of_char (CHR ''0''))
      else if CHR ''a'' \<le> c \<and> c \<le> CHR ''f'' then Some (of_char c - of_char (CHR ''a'') + 10)
      else if CHR ''A'' \<le> c \<and> c \<le> CHR ''F'' then Some (of_char c - of_char (CHR ''A'') + 10)
      else None)"

text \<open>\<open>hex.DecodeString\<close>: \<open>None\<close> for an odd length or a byte that is no digit.\<close>

fun hex_DecodeString :: "string \<Rightarrow> string option" where
  "hex_DecodeString [] = Some []"
| "hex_DecodeString [c] = None"
| "hex_DecodeString (a # b # r) =
     (case (fromHexChar a, fromHexChar b) of
        (Some x, Some y) \<Rightarrow>
          (case hex_DecodeString r of
             None \<Rightarrow> None
           | Some bs \<Rightarrow> Some (char_of (16 * x + y) # bs))
      | _ \<Rightarrow> None)"

text \<open>\<open>subtle.ConstantTimeCompare\<close> gives 1 exactly for equal slices.\<close>

definition ConstantTimeCompare :: "string \<Rightarrow> string \<Rightarrow> nat" where
  "ConstantTimeCompare x y = (if x = y then 1 else 0)"

section \<open>Errors\<close>

datatype error =
    ErrLocked
  | ErrAlreadyUnlocked
  | ErrNotInitialized
  | ErrAlreadyInit
  | ErrWrongPassword
  | ErrInvalidTier
  | ErrFieldID id_error
  | ErrDecodeSalt
  | ErrDecodeSecretKey
  | ErrRand
  | ErrCreatingCipher
  | ErrDecodingBase64
  | ErrCiphertextTooShort
  | ErrDecryptionFailed
  | ErrConstraint
  | ErrIndexOutOfRange

section \<open>Package crypto\<close>

definition nonceLen :: nat where "nonceLen = 12"
definition keyLen :: nat where "keyLen = 32"

text \<open>\<open>aes.NewCipher\<close> takes keys of 16, 24 or 32 bytes only.\<close>

definition aes_key_ok :: "string \<Rightarrow> bool" where
  "aes_key_ok key = (length key = 16 \<or> length key = 24 \<or> length key = 32)"

definition Encrypt :: "prims \<Rightarrow> env \<Rightarrow> string \<Rightarrow> string \<Rightarrow> error + string" where
  "Encrypt P e key plaintext =
     (if \<not> aes_key_ok key then Inl ErrCreatingCipher
      else case rand_Read e nonceLen of
        None \<Rightarrow> Inl ErrRand
      | Some nonce \<Rightarrow> Inr (nonce @ gcm_seal P key nonce plaintext))"

definition Decrypt :: "prims \<Rightarrow> string \<Rightarrow> string \<Rightarrow> error + string" where
  "Decrypt P key data =
     (if length data < nonceLen + 1 then Inl ErrCiphertextTooShort
      else if \<not> aes_key_ok key then Inl ErrCreatingCipher
      else case gcm_open P key (take nonceLen data) (drop nonceLen data) of
        None \<Rightarrow> Inl ErrDecryptionFailed
      | Some plaintext \<Rightarrow> Inr plaintext)"

definition EncryptToBase64 :: "prims \<Rightarrow> env \<Rightarrow> string \<Rightarrow> string \<Rightarrow> error + string" where
  "EncryptToBase64 P e key plaintext =
     (case Encrypt P e key plaintext of
        Inl err \<Rightarrow> Inl err
      | Inr data \<Rightarrow> Inr (b64_encode P data))"

definition DecryptFromBase64 :: "prims \<Rightarrow> string \<Rightarrow> string \<Rightarrow> error + string" where
  "DecryptFromBase64 P key encoded =
     (case b64_decode P encoded of
        None \<Rightarrow> Inl ErrDecodingBase64
      | Some data \<Rightarrow> Decrypt P key data)"

text \<open>
  \<open>DeriveSubkey\<close> reads \<open>keyLen\<close> bytes of the HKDF stream; the stream gives 8160
  bytes before it ends, so the read does not fail.
\<close>

definition DeriveSubkey :: "prims \<Rightarrow> string \<Rightarrow> string \<Rightarrow> string \<Rightarrow> string" where
  "DeriveSubkey P vaultKey salt_bytes category =
     map (hkdf_sha256 P vaultKey salt_bytes category) [0..<keyLen]"

definition DeriveVaultKey :: "prims \<Rightarrow> string \<Rightarrow> string \<Rightarrow> string \<Rightarrow> string" where
  "DeriveVaultKey P password secretKey salt_bytes = argon2id P (password @ secretKey) salt_bytes"

definition HashSecretKey :: "prims \<Rightarrow> string \<Rightarrow> string" where
  "HashSecretKey P secretKey = sha256 P secretKey"

section \<open>Package store\<close>

text \<open>
  The database is its four tables, each a list of rows in insertion order. A statement
  of the store either runs or violates a primary key; failures of the disk are outside
  the model. \<open>FieldInfo\<close>, the struct that the vault returns, has the fields of
  \<open>Field\<close> and is the same record here; the audit entry's and the token's fields
  carry a prefix where a name is taken.
\<close>

record Field =
  ID :: string
  Category :: string
  FieldName :: string
  Value :: string
  Sensitivity :: string
  UpdatedAt :: time
  Version :: int

type_synonym FieldInfo = Field

record AuditEntry =
  a_ID :: string
  a_Consumer :: string
  a_Scope :: string
  Action :: string
  Purpose :: string
  a_CreatedAt :: time

record Token =
  TokenStr :: string
  Consumer :: string
  Scope :: string
  ExpiresAt :: time
  Usage :: string
  CreatedAt :: time

record DB =
  vault_fields :: "Field list"
  vault_access_log :: "AuditEntry list"
  vault_tokens :: "Token list"
  vault_meta :: "(string \<times> string) list"

text \<open>meta.go\<close>

definition SetMeta :: "string \<Rightarrow> string \<Rightarrow> DB \<Rightarrow> DB" where
  "SetMeta k v d =
     d\<lparr>vault_meta :=
        (if k \<in> fst ` set (vault_meta d)
         then map (\<lambda>(k', v'). if k' = k then (k', v) else (k', v')) (vault_meta d)
         else vault_meta d @ [(k, v)])\<rparr>"

definition GetMeta :: "string \<Rightarrow> DB \<Rightarrow> string" where
  "GetMeta k d = (case map_of (vault_meta d) k of None \<Rightarrow> [] | Some v \<Rightarrow> v)"

definition IsInitialized :: "DB \<Rightarrow> bool" where
  "IsInitialized d = (GetMeta ''salt'' d \<noteq> [])"

text \<open>
  audit.go. \<open>LogAccess\<close> fills in an identifier of 16 random bytes (zeros when the
  random source fails: the error of the read is dropped) and the time, and inserts the
  row; the identifier is the primary key.
\<close>

definition LogAccess :: "env \<Rightarrow> AuditEntry \<Rightarrow> DB \<Rightarrow> error option \<times> DB" where
  "LogAccess e entry d =
     (let b = (if rand_fail e then replicate 16 (CHR 0x00) else map (id_bytes e) [0..<16]);
          entry1 = (if a_ID entry = [] then entry\<lparr>a_ID := hex_EncodeToString b\<rparr> else entry);
          entry2 = (if a_CreatedAt entry1 = zero_time then entry1\<lparr>a_CreatedAt := now e\<rparr>
                    else entry1)
      in if a_ID entry2 \<in> a_ID ` set (vault_access_log d) then (Some ErrConstraint, d)
         else (None, d\<lparr>vault_access_log :=
                 vault_access_log d @ [entry2\<lparr>a_CreatedAt := rfc3339 (a_CreatedAt entry2)\<rparr>]\<rparr>))"

text \<open>
  \<open>ORDER BY created_at DESC LIMIT ?\<close>; a negative limit is no limit in SQLite.
\<close>

definition GetAuditLog :: "int \<Rightarrow> DB \<Rightarrow> AuditEntry list" where
  "GetAuditLog limit d =
     (let rows = rev (sort_key a_CreatedAt (vault_access_log d))
      in if limit < 0 then rows else take (nat limit) rows)"

text \<open>tokens.go\<close>

definition CreateToken :: "Token \<Rightarrow> DB \<Rightarrow> error option \<times> DB" where
  "CreateToken t d =
     (if TokenStr t \<in> TokenStr ` set (vault_tokens d) then (Some ErrConstraint, d)
      else (None, d\<lparr>vault_tokens :=
              vault_tokens d @ [t\<lparr>ExpiresAt := rfc3339 (ExpiresAt t),
                                  CreatedAt := rfc3339 (CreatedAt t)\<rparr>]\<rparr>))"

definition GetToken :: "env \<Rightarrow> string \<Rightarrow> DB \<Rightarrow> Token option" where
  "GetToken e tok d =
     (case find (\<lambda>t. TokenStr t = tok) (vault_tokens d) of
        None \<Rightarrow> None
      | Some t \<Rightarrow> if ExpiresAt t < now e then None else Some t)"

definition DeleteToken :: "string \<Rightarrow> DB \<Rightarrow> int \<times> DB" where
  "DeleteToken tok d =
     (int (length (filter (\<lambda>t. TokenStr t = tok) (vault_tokens d))),
      d\<lparr>vault_tokens := filter (\<lambda>t. TokenStr t \<noteq> tok) (vault_tokens d)\<rparr>)"

definition ListTokensByUsage :: "string \<Rightarrow> DB \<Rightarrow> Token list" where
  "ListTokensByUsage usage d =
     rev (sort_key CreatedAt (filter (\<lambda>t. Usage t = usage) (vault_tokens d)))"

text \<open>
  fields.go. \<open>SetField\<close> is the upsert: a new row gets version 1; on a conflict of
  the identifier the row keeps its category and field name, takes the new value and
  time, takes the new sensitivity unless it is empty, and its version goes up by one.
  The version column is a 64-bit integer that starts at 1 and grows by one for each
  update, so it stays in range for any number of updates that can happen, and is an
  integer without bound here.
\<close>

definition SetField :: "Field \<Rightarrow> DB \<Rightarrow> DB" where
  "SetField f d =
     d\<lparr>vault_fields :=
        (if ID f \<in> ID ` set (vault_fields d)
         then map (\<lambda>r. if ID r = ID f
                        then r\<lparr>Value := Value f,
                               Sensitivity := (if Sensitivity f \<noteq> [] then Sensitivity f
                                               else Sensitivity r),
                               UpdatedAt := rfc3339 (UpdatedAt f),
                               Version := Version r + 1\<rparr>
                        else r) (vault_fields d)
         else vault_fields d @ [f\<lparr>UpdatedAt := rfc3339 (UpdatedAt f), Version := 1\<rparr>])\<rparr>"

definition GetField :: "string \<Rightarrow> DB \<Rightarrow> Field option" where
  "GetField fid d = find (\<lambda>r. ID r = fid) (vault_fields d)"

text \<open>
  \<open>ORDER BY category, field_name\<close> is a stable sort by field name followed by a
  stable sort by category. The two list operations select no value: the field is the
  empty string in what they return.
\<close>

definition ListFields :: "DB \<Rightarrow> Field list" where
  "ListFields d =
     map (\<lambda>r. r\<lparr>Value := []\<rparr>) (sort_key Category (sort_key FieldName (vault_fields d)))"

definition ListFieldsByCategory :: "string \<Rightarrow> DB \<Rightarrow> Field list" where
  "ListFieldsByCategory category d =
     map (\<lambda>r. r\<lparr>Value := []\<rparr>)
       (sort_key FieldName (filter (\<lambda>r. Category r = category) (vault_fields d)))"

definition GetFieldsByCategory :: "string \<Rightarrow> DB \<Rightarrow> Field list" where
  "GetFieldsByCategory category d =
     sort_key FieldName (filter (\<lambda>r. Category r = category) (vault_fields d))"

definition GetAllFields :: "DB \<Rightarrow> Field list" where
  "GetAllFields d = sort_key Category (sort_key FieldName (vault_fields d))"

definition DeleteField :: "string \<Rightarrow> DB \<Rightarrow> DB" where
  "DeleteField fid d = d\<lparr>vault_fields := filter (\<lambda>r. ID r \<noteq> fid) (vault_fields d)\<rparr>"

definition db_SetSensitivity :: "env \<Rightarrow> string \<Rightarrow> string \<Rightarrow> DB \<Rightarrow> DB" where
  "db_SetSensitivity e fid tier d =
     d\<lparr>vault_fields :=
        map (\<lambda>r. if ID r = fid then r\<lparr>Sensitivity := tier, UpdatedAt := rfc3339 (now e)\<rparr>
                  else r) (vault_fields d)\<rparr>"

section \<open>The session\<close>

text \<open>
  A session holds its token, the slice of the vault key and the idle timer. The slice
  is \<open>None\<close> when nil and otherwise the address of its array in the memory of byte
  buffers, so that the array can be looked at after the session has let go of it. The
  timer is \<open>None\<close> when nil and otherwise the time at which it fires. The callback
  \<open>lockFn\<close> is the closure that \<open>Unlock\<close> passes in; it acts on the vault and is
  \<open>lockFn\<close> below. Locking pages into memory and switching core dumps off have no
  effect on the values and are left out.
\<close>

type_synonym memory = "nat \<Rightarrow> string"

record Session =
  token :: string
  vaultKey :: "nat option"
  timer :: "time option"
  ttl :: int

definition defaultAutoLockDuration :: int where
  "defaultAutoLockDuration = 30 * 60 * 1000000000"

text \<open>
  \<open>NewSession\<close> copies the key into a new array, at the address \<open>a\<close>, which the
  caller takes fresh.
\<close>

definition NewSession :: "env \<Rightarrow> string \<Rightarrow> nat \<Rightarrow> memory \<Rightarrow> error + (Session \<times> memory)" where
  "NewSession e key a m =
     (case rand_Read e 32 of
        None \<Rightarrow> Inl ErrRand
      | Some tokenBytes \<Rightarrow>
          Inr (\<lparr>token = hex_EncodeToString tokenBytes,
                vaultKey = Some a,
                timer = Some (now e + defaultAutoLockDuration),
                ttl = defaultAutoLockDuration\<rparr>,
               m(a := key)))"

definition Session_Token :: "Session \<Rightarrow> string" where
  "Session_Token s = token s"

definition VaultKey :: "Session \<Rightarrow> memory \<Rightarrow> string option" where
  "VaultKey s m = (case vaultKey s of None \<Rightarrow> None | Some a \<Rightarrow> Some (m a))"

definition Session_ValidateToken :: "Session \<Rightarrow> string \<Rightarrow> bool" where
  "Session_ValidateToken s t =
     (if token s = [] then False else ConstantTimeCompare (token s) t = 1)"

definition Touch :: "env \<Rightarrow> Session \<Rightarrow> Session" where
  "Touch e s = (if timer s \<noteq> None then s\<lparr>timer := Some (now e + ttl s)\<rparr> else s)"

text \<open>
  \<open>zeroKey\<close> writes zero over every byte of the array and then sets the slice to nil.
  On a nil slice the loop has nothing to run over.
\<close>

definition zeroKey :: "Session \<times> memory \<Rightarrow> Session \<times> memory" where
  "zeroKey sm =
     (case vaultKey (fst sm) of
        None \<Rightarrow> sm
      | Some a \<Rightarrow>
          ((fst sm)\<lparr>vaultKey := None\<rparr>,
           (snd sm)(a := replicate (length (snd sm a)) (CHR 0x00))))"

definition clear_token :: "Session \<times> memory \<Rightarrow> Session \<times> memory" where
  "clear_token sm = ((fst sm)\<lparr>token := []\<rparr>, snd sm)"

definition clear_timer :: "Session \<times> memory \<Rightarrow> Session \<times> memory" where
  "clear_timer sm = ((fst sm)\<lparr>timer := None\<rparr>, snd sm)"

text \<open>
  \<open>Destroy\<close> and \<open>autoLock\<close> run the same three statements in the same order: zero
  the key, clear the token, drop the timer (\<open>Destroy\<close> stops it first). \<open>autoLock\<close>
  then calls \<open>lockFn\<close>. The trace lists the states between the statements.
\<close>

definition Destroy :: "Session \<times> memory \<Rightarrow> Session \<times> memory" where
  "Destroy sm = clear_timer (clear_token (zeroKey sm))"

definition Destroy_trace :: "Session \<times> memory \<Rightarrow> (Session \<times> memory) list" where
  "Destroy_trace sm =
     [sm, zeroKey sm, clear_token (zeroKey sm), clear_timer (clear_token (zeroKey sm))]"

definition Session_autoLock :: "Session \<times> memory \<Rightarrow> Session \<times> memory" where
  "Session_autoLock sm = clear_timer (clear_token (zeroKey sm))"

definition autoLock_trace :: "Session \<times> memory \<Rightarrow> (Session \<times> memory) list" where
  "autoLock_trace sm =
     [sm, zeroKey sm, clear_token (zeroKey sm), clear_timer (clear_token (zeroKey sm))]"

section \<open>The vault\<close>

text \<open>
  The vault is its database, its session (\<open>None\<close> when nil), the salt that
  \<open>Unlock\<close> keeps, and the memory in which key arrays live, with the next free
  address. An operation takes the vault and returns its result with the vault after it.
\<close>

record Vault =
  db :: DB
  session :: "Session option"
  salt :: string
  mem :: memory
  brk :: nat

definition validTiers :: "string \<Rightarrow> bool" where
  "validTiers s = (s = ''public'' \<or> s = ''standard'' \<or> s = ''sensitive'' \<or> s = ''critical'')"

definition verification_plaintext :: string where
  "verification_plaintext = ''personal-vault-verification''"

text \<open>The vault drops the error of \<open>LogAccess\<close>.\<close>

definition log_access :: "env \<Rightarrow> AuditEntry \<Rightarrow> Vault \<Rightarrow> Vault" where
  "log_access e entry v = v\<lparr>db := snd (LogAccess e entry (db v))\<rparr>"

definition audit_entry :: "string \<Rightarrow> string \<Rightarrow> string \<Rightarrow> string \<Rightarrow> AuditEntry" where
  "audit_entry consumer scope action purpose =
     \<lparr>a_ID = [], a_Consumer = consumer, a_Scope = scope, Action = action,
      Purpose = purpose, a_CreatedAt = zero_time\<rparr>"

text \<open>The callback of the session's timer: the vault forgets the session.\<close>

definition lockFn :: "Vault \<Rightarrow> Vault" where
  "lockFn v = v\<lparr>session := None\<rparr>"

text \<open>
  The timer fires: the session zeroes its key and clears its token
  (\<open>autoLock_session\<close>), and then the callback runs (\<open>autoLock\<close>).
\<close>

definition autoLock_session :: "Vault \<Rightarrow> Vault" where
  "autoLock_session v =
     (case session v of
        None \<Rightarrow> v
      | Some s \<Rightarrow>
          (let sm = Session_autoLock (s, mem v)
           in v\<lparr>session := Some (fst sm), mem := snd sm\<rparr>))"

definition autoLock :: "Vault \<Rightarrow> Vault" where
  "autoLock v = lockFn (autoLock_session v)"

definition requireUnlocked :: "env \<Rightarrow> Vault \<Rightarrow> (error + string) \<times> Vault" where
  "requireUnlocked e v =
     (case session v of
        None \<Rightarrow> (Inl ErrLocked, v)
      | Some s \<Rightarrow>
          (let s1 = Touch e s; v1 = v\<lparr>session := Some s1\<rparr>
           in case VaultKey s1 (mem v) of
                None \<Rightarrow> (Inl ErrLocked, v1)
              | Some key \<Rightarrow> (Inr key, v1)))"

definition Unlock :: "prims \<Rightarrow> env \<Rightarrow> string \<Rightarrow> string \<Rightarrow> Vault \<Rightarrow> (error + string) \<times> Vault" where
  "Unlock P e password secretKeyHex v =
     (if session v \<noteq> None then (Inl ErrAlreadyUnlocked, v)
      else if \<not> IsInitialized (db v) then (Inl ErrNotInitialized, v)
      else case b64_decode P (GetMeta ''salt'' (db v)) of
        None \<Rightarrow> (Inl ErrDecodeSalt, v)
      | Some salt_bytes \<Rightarrow>
      (case hex_DecodeString (TrimSpace secretKeyHex) of
        None \<Rightarrow> (Inl ErrDecodeSecretKey, v)
      | Some sk \<Rightarrow>
      (let storedHash = GetMeta ''secret_key_hash'' (db v);
           actualHash = hex_EncodeToString (HashSecretKey P sk)
       in if ConstantTimeCompare storedHash actualHash \<noteq> 1 then (Inl ErrWrongPassword, v)
       else
      (let key = DeriveVaultKey P password sk salt_bytes;
           verifyCipher = GetMeta ''verification'' (db v)
       in case DecryptFromBase64 P key verifyCipher of
            Inl err \<Rightarrow> (Inl ErrWrongPassword, v)
          | Inr plaintext \<Rightarrow>
              if plaintext \<noteq> verification_plaintext then (Inl ErrWrongPassword, v)
              else
              (let v1 = v\<lparr>salt := salt_bytes\<rparr>
               in case NewSession e key (brk v1) (mem v1) of
                    Inl err \<Rightarrow> (Inl err, v1)
                  | Inr (s, m) \<Rightarrow>
                      (let v2 = v1\<lparr>session := Some s, mem := m, brk := Suc (brk v1)\<rparr>;
                           v3 = log_access e (audit_entry ''vault'' ''*'' ''unlock'' []) v2
                       in (Inr (Session_Token s), v3)))))))"

definition Lock :: "env \<Rightarrow> Vault \<Rightarrow> Vault" where
  "Lock e v =
     (case session v of
        None \<Rightarrow> v
      | Some s \<Rightarrow>
          (let v1 = log_access e (audit_entry ''vault'' ''*'' ''lock'' []) v;
               sm = Destroy (s, mem v1)
           in v1\<lparr>session := None, mem := snd sm\<rparr>))"

text \<open>
  \<open>Set\<close>. After \<open>ValidateFieldID\<close> the identifier splits into two parts; the last
  case alternative is the index panic that Go would raise otherwise.
\<close>

definition Set :: "prims \<Rightarrow> env \<Rightarrow> string \<Rightarrow> string \<Rightarrow> string \<Rightarrow> Vault \<Rightarrow> error option \<times> Vault" where
  "Set P e fid val sensitivity v =
     (case ValidateFieldID fid of
        Some err \<Rightarrow> (Some (ErrFieldID err), v)
      | None \<Rightarrow>
      (case requireUnlocked e v of
        (Inl err, v1) \<Rightarrow> (Some err, v1)
      | (Inr key, v1) \<Rightarrow>
      (case SplitN2 fid (CHR ''.'') of
        [category, fieldName] \<Rightarrow>
          (let subkey = DeriveSubkey P key (salt v1) category
           in case EncryptToBase64 P e subkey val of
                Inl err \<Rightarrow> (Some err, v1)
              | Inr encrypted \<Rightarrow>
                  (let sensitivity1 = (if sensitivity = [] then ''standard'' else sensitivity)
                   in if \<not> validTiers sensitivity1 then (Some ErrInvalidTier, v1)
                      else
                        (let v2 = v1\<lparr>db := SetField
                                   \<lparr>ID = fid, Category = category, FieldName = fieldName,
                                    Value = encrypted, Sensitivity = sensitivity1,
                                    UpdatedAt = now e, Version = 0\<rparr> (db v1)\<rparr>
                         in (None, log_access e (audit_entry ''vault'' fid ''write'' []) v2))))
      | _ \<Rightarrow> (Some ErrIndexOutOfRange, v1))))"

definition field_info :: "Field \<Rightarrow> string \<Rightarrow> FieldInfo" where
  "field_info f plaintext =
     \<lparr>ID = ID f, Category = Category f, FieldName = FieldName f, Value = plaintext,
      Sensitivity = Sensitivity f, UpdatedAt = UpdatedAt f, Version = Version f\<rparr>"

definition Get :: "prims \<Rightarrow> env \<Rightarrow> string \<Rightarrow> Vault \<Rightarrow> (error + FieldInfo option) \<times> Vault" where
  "Get P e fid v =
     (case requireUnlocked e v of
        (Inl err, v1) \<Rightarrow> (Inl err, v1)
      | (Inr key, v1) \<Rightarrow>
      (case GetField fid (db v1) of
        None \<Rightarrow> (Inr None, v1)
      | Some f \<Rightarrow>
          (let subkey = DeriveSubkey P key (salt v1) (Category f)
           in case DecryptFromBase64 P subkey (Value f) of
                Inl err \<Rightarrow> (Inl err, v1)
              | Inr plaintext \<Rightarrow>
                  (Inr (Some (field_info f plaintext)),
                   log_access e (audit_entry ''vault'' fid ''read'' []) v1))))"

definition List :: "env \<Rightarrow> Vault \<Rightarrow> (error + FieldInfo list) \<times> Vault" where
  "List e v =
     (case requireUnlocked e v of
        (Inl err, v1) \<Rightarrow> (Inl err, v1)
      | (Inr key, v1) \<Rightarrow> (Inr (map (\<lambda>f. field_info f []) (ListFields (db v1))), v1))"

definition ListByCategory :: "env \<Rightarrow> string \<Rightarrow> Vault \<Rightarrow> (error + FieldInfo list) \<times> Vault" where
  "ListByCategory e category v =
     (case requireUnlocked e v of
        (Inl err, v1) \<Rightarrow> (Inl err, v1)
      | (Inr key, v1) \<Rightarrow>
          (Inr (map (\<lambda>f. field_info f []) (ListFieldsByCategory category (db v1))), v1))"

text \<open>The loop of \<open>GetByCategory\<close>: it stops at the first field that does not decrypt.\<close>

fun decrypt_fields :: "prims \<Rightarrow> string \<Rightarrow> Field list \<Rightarrow> error + FieldInfo list" where
  "decrypt_fields P subkey [] = Inr []"
| "decrypt_fields P subkey (f # fs) =
     (case DecryptFromBase64 P subkey (Value f) of
        Inl err \<Rightarrow> Inl err
      | Inr plaintext \<Rightarrow>
          (case decrypt_fields P subkey fs of
             Inl err \<Rightarrow> Inl err
           | Inr infos \<Rightarrow> Inr (field_info f plaintext # infos)))"

definition GetByCategory :: "prims \<Rightarrow> env \<Rightarrow> string \<Rightarrow> Vault \<Rightarrow> (error + FieldInfo list) \<times> Vault" where
  "GetByCategory P e category v =
     (case requireUnlocked e v of
        (Inl err, v1) \<Rightarrow> (Inl err, v1)
      | (Inr key, v1) \<Rightarrow>
          (let fs = GetFieldsByCategory category (db v1);
               subkey = DeriveSubkey P key (salt v1) category
           in case decrypt_fields P subkey fs of
                Inl err \<Rightarrow> (Inl err, v1)
              | Inr result \<Rightarrow>
                  (Inr result,
                   log_access e (audit_entry ''vault'' (category @ ''.*'') ''read'' []) v1)))"

text \<open>
  The loop of \<open>GetContext\<close>, with the bundle and the subkeys derived so far; a
  category that is not in the bundle has no fields yet.
\<close>

type_synonym ContextBundle = "string \<Rightarrow> FieldInfo list option"

fun context_loop ::
  "prims \<Rightarrow> string \<Rightarrow> string \<Rightarrow> Field list \<Rightarrow> ContextBundle \<Rightarrow> (string \<Rightarrow> string option) \<Rightarrow>
   error + ContextBundle" where
  "context_loop P key salt_bytes [] bundle subkeys = Inr bundle"
| "context_loop P key salt_bytes (f # fs) bundle subkeys =
     (let sk = (case subkeys (Category f) of
                  Some k \<Rightarrow> k
                | None \<Rightarrow> DeriveSubkey P key salt_bytes (Category f));
          subkeys1 = subkeys(Category f \<mapsto> sk)
      in case DecryptFromBase64 P sk (Value f) of
           Inl err \<Rightarrow> Inl err
         | Inr plaintext \<Rightarrow>
             context_loop P key salt_bytes fs
               (bundle(Category f \<mapsto>
                  (case bundle (Category f) of None \<Rightarrow> [] | Some infos \<Rightarrow> infos)
                  @ [field_info f plaintext]))
               subkeys1)"

definition GetContext :: "prims \<Rightarrow> env \<Rightarrow> Vault \<Rightarrow> (error + ContextBundle) \<times> Vault" where
  "GetContext P e v =
     (case requireUnlocked e v of
        (Inl err, v1) \<Rightarrow> (Inl err, v1)
      | (Inr key, v1) \<Rightarrow>
          (case context_loop P key (salt v1) (GetAllFields (db v1)) Map.empty Map.empty of
             Inl err \<Rightarrow> (Inl err, v1)
           | Inr bundle \<Rightarrow>
               (Inr bundle, log_access e (audit_entry ''vault'' ''*'' ''context'' []) v1)))"

definition Delete :: "env \<Rightarrow> string \<Rightarrow> Vault \<Rightarrow> error option \<times> Vault" where
  "Delete e fid v =
     (case requireUnlocked e v of
        (Inl err, v1) \<Rightarrow> (Some err, v1)
      | (Inr key, v1) \<Rightarrow>
          (None, log_access e (audit_entry ''vault'' fid ''delete'' [])
                   (v1\<lparr>db := DeleteField fid (db v1)\<rparr>)))"

definition SetSensitivity :: "env \<Rightarrow> string \<Rightarrow> string \<Rightarrow> Vault \<Rightarrow> error option \<times> Vault" where
  "SetSensitivity e fid tier v =
     (case requireUnlocked e v of
        (Inl err, v1) \<Rightarrow> (Some err, v1)
      | (Inr key, v1) \<Rightarrow>
          if \<not> validTiers tier then (Some ErrInvalidTier, v1)
          else (None, v1\<lparr>db := db_SetSensitivity e fid tier (db v1)\<rparr>))"

definition AuditLog :: "int \<Rightarrow> Vault \<Rightarrow> AuditEntry list" where
  "AuditLog limit v = GetAuditLog limit (db v)"

definition ValidateToken :: "string \<Rightarrow> Vault \<Rightarrow> bool" where
  "ValidateToken t v =
     (case session v of None \<Rightarrow> False | Some s \<Rightarrow> Session_ValidateToken s t)"

definition hashServiceToken :: "prims \<Rightarrow> string \<Rightarrow> string" where
  "hashServiceToken P t = hex_EncodeToString (sha256 P t)"

definition CreateServiceToken ::
  "prims \<Rightarrow> env \<Rightarrow> string \<Rightarrow> string \<Rightarrow> int \<Rightarrow> Vault \<Rightarrow> (error + string) \<times> Vault" where
  "CreateServiceToken P e consumer scope ttl_ns v =
     (case requireUnlocked e v of
        (Inl err, v1) \<Rightarrow> (Inl err, v1)
      | (Inr key, v1) \<Rightarrow>
      (case rand_Read e 32 of
        None \<Rightarrow> (Inl ErrRand, v1)
      | Some tokenBytes \<Rightarrow>
          (let tokenStr = hex_EncodeToString tokenBytes;
               t = \<lparr>TokenStr = hashServiceToken P tokenStr, Consumer = consumer, Scope = scope,
                    ExpiresAt = now e + ttl_ns, Usage = ''service'', CreatedAt = now e\<rparr>
           in case CreateToken t (db v1) of
                (Some err, d) \<Rightarrow> (Inl err, v1)
              | (None, d) \<Rightarrow>
                  (Inr tokenStr,
                   log_access e (audit_entry ''vault'' scope ''create_service_token''
                                   (''consumer: '' @ consumer))
                     (v1\<lparr>db := d\<rparr>)))))"

definition ValidateServiceToken :: "prims \<Rightarrow> env \<Rightarrow> string \<Rightarrow> Vault \<Rightarrow> Token option" where
  "ValidateServiceToken P e t v =
     (case GetToken e (hashServiceToken P t) (db v) of
        None \<Rightarrow> None
      | Some tok \<Rightarrow> if Usage tok \<noteq> ''service'' then None else Some tok)"

definition ListServiceTokens :: "env \<Rightarrow> Vault \<Rightarrow> (error + Token list) \<times> Vault" where
  "ListServiceTokens e v =
     (case requireUnlocked e v of
        (Inl err, v1) \<Rightarrow> (Inl err, v1)
      | (Inr key, v1) \<Rightarrow> (Inr (ListTokensByUsage ''service'' (db v1)), v1))"

definition RevokeServiceToken :: "prims \<Rightarrow> env \<Rightarrow> string \<Rightarrow> Vault \<Rightarrow> (error + int) \<times> Vault" where
  "RevokeServiceToken P e t v =
     (case requireUnlocked e v of
        (Inl err, v1) \<Rightarrow> (Inl err, v1)
      | (Inr key, v1) \<Rightarrow>
          (case DeleteToken (hashServiceToken P t) (db v1) of
             (n, d) \<Rightarrow>
               (Inr n,
                if n > 0
                then log_access e (audit_entry ''vault'' ''*'' ''revoke_service_token'' [])
                       (v1\<lparr>db := d\<rparr>)
                else v1\<lparr>db := d\<rparr>)))"

definition TouchSession :: "env \<Rightarrow> Vault \<Rightarrow> Vault" where
  "TouchSession e v =
     (case session v of None \<Rightarrow> v | Some s \<Rightarrow> v\<lparr>session := Some (Touch e s)\<rparr>)"

section \<open>Package api\<close>

text \<open>
  A handler reads the values that the authentication put into the request's context
  (the scope and whether the token was the session's), the path value, the query and
  the decoded body, and writes one response. A body is \<open>None\<close> when it is not JSON.
\<close>

record ctx =
  scopeKey :: "string option"
  sessionAuthKey :: "bool option"

record tokenInfo =
  TokenPrefix :: string
  ti_Consumer :: string
  ti_Scope :: string
  ti_ExpiresAt :: time
  ti_CreatedAt :: time

datatype response =
    RespError nat string string
  | RespStatus nat string
  | RespFields nat "FieldInfo list"
  | RespAudit nat "AuditEntry list"
  | RespToken nat string time
  | RespTokens nat "tokenInfo list"
  | RespRevoked nat int

definition scopeFromRequest :: "ctx \<Rightarrow> string" where
  "scopeFromRequest r = (case scopeKey r of Some s \<Rightarrow> s | None \<Rightarrow> ''*'')"

definition isSessionAuth :: "ctx \<Rightarrow> bool" where
  "isSessionAuth r = (case sessionAuthKey r of Some b \<Rightarrow> b | None \<Rightarrow> False)"

definition sessionRequired :: response where
  "sessionRequired =
     RespError 403 ''session_required''
       ''this operation requires a session token, not a service token''"

definition scopeDenied :: response where
  "scopeDenied =
     RespError 403 ''scope_exceeded'' ''token scope does not allow access to this field''"

definition handleVaultError :: "error \<Rightarrow> response" where
  "handleVaultError err =
     (case err of
        ErrLocked \<Rightarrow> RespError 403 ''vault_locked'' ''vault is locked''
      | ErrAlreadyUnlocked \<Rightarrow> RespError 409 ''conflict'' ''vault is already unlocked''
      | ErrNotInitialized \<Rightarrow> RespError 412 ''not_initialized'' ''vault is not initialized''
      | ErrInvalidTier \<Rightarrow>
          RespError 400 ''invalid_request''
            ''invalid sensitivity tier: must be public, standard, sensitive, or critical''
      | _ \<Rightarrow> RespError 500 ''internal'' ''internal error'')"

text \<open>
  The authentication of the protected routes. It gives the response 401, or the
  context for the handler; a service token leaves an audit entry \<open>api_access\<close>.
\<close>

definition authMiddleware ::
  "prims \<Rightarrow> env \<Rightarrow> string \<Rightarrow> Vault \<Rightarrow> (response + ctx) \<times> Vault" where
  "authMiddleware P e auth v =
     (if \<not> HasPrefix auth ''Bearer ''
      then (Inl (RespError 401 ''unauthenticated'' ''missing authorization''), v)
      else
        (let tok = TrimPrefix auth ''Bearer ''
         in if ValidateToken tok v
            then (Inr \<lparr>scopeKey = Some ''*'', sessionAuthKey = Some True\<rparr>, TouchSession e v)
            else case ValidateServiceToken P e tok v of
              Some svcToken \<Rightarrow>
                (Inr \<lparr>scopeKey = Some (Scope svcToken), sessionAuthKey = Some False\<rparr>,
                 log_access e
                   (audit_entry (Consumer svcToken) (Scope svcToken) ''api_access'' [])
                   (TouchSession e v))
            | None \<Rightarrow>
                (Inl (RespError 401 ''unauthenticated'' ''invalid or expired token''), v)))"

definition handleLock :: "env \<Rightarrow> ctx \<Rightarrow> Vault \<Rightarrow> response \<times> Vault" where
  "handleLock e r v =
     (if \<not> isSessionAuth r then (sessionRequired, v)
      else (RespStatus 200 ''locked'', Lock e v))"

text \<open>
  \<open>strconv.Atoi\<close>: an optional sign and decimal digits, within the 64 bits of
  \<open>int\<close>.
\<close>

definition digits_value :: "string \<Rightarrow> int" where
  "digits_value ds = foldl (\<lambda>n c. 10 * n + (int (of_char c) - 48)) 0 ds"

definition is_digit :: "char \<Rightarrow> bool" where
  "is_digit c = (CHR ''0'' \<le> c \<and> c \<le> CHR ''9'')"

definition Atoi :: "string \<Rightarrow> int option" where
  "Atoi str =
     (let neg = (case str of c # _ \<Rightarrow> c = CHR ''-'' | [] \<Rightarrow> False);
          ds = (case str of c # r \<Rightarrow> if c = CHR ''-'' \<or> c = CHR ''+'' then r else str
                | [] \<Rightarrow> []);
          n = (if neg then - digits_value ds else digits_value ds)
      in if ds = [] \<or> \<not> list_all is_digit ds then None
         else if n < - (2 ^ 63) \<or> 2 ^ 63 \<le> n then None
         else Some n)"

definition handleAuditLog :: "ctx \<Rightarrow> string \<Rightarrow> Vault \<Rightarrow> response \<times> Vault" where
  "handleAuditLog r limitStr v =
     (if \<not> isSessionAuth r then (sessionRequired, v)
      else
        (let limit0 = (if limitStr \<noteq> []
                       then (case Atoi limitStr of
                               Some n \<Rightarrow> if n > 0 then n else 50
                             | None \<Rightarrow> 50)
                       else 50);
             limit = (if limit0 > 1000 then 1000 else limit0)
         in (RespAudit 200 (AuditLog limit v), v)))"

record create_request =
  req_Consumer :: string
  req_Scope :: string
  req_TTL :: string

definition handleCreateServiceToken ::
  "prims \<Rightarrow> env \<Rightarrow> ctx \<Rightarrow> create_request option \<Rightarrow> Vault \<Rightarrow> response \<times> Vault" where
  "handleCreateServiceToken P e r body v =
     (if \<not> isSessionAuth r then (sessionRequired, v)
      else case body of
        None \<Rightarrow> (RespError 400 ''invalid_request'' ''invalid JSON'', v)
      | Some req \<Rightarrow>
          if req_Consumer req = [] then (RespError 400 ''invalid_request'' ''consumer required'', v)
          else
            (let scope = (if req_Scope req = [] then ''*'' else req_Scope req);
                 ttl0 = (if req_TTL req \<noteq> [] then parse_duration P (req_TTL req)
                         else Some (365 * 24 * 3600 * 1000000000))
             in case ttl0 of
                  None \<Rightarrow> (RespError 400 ''invalid_request'' ''invalid ttl duration'', v)
                | Some ttl_ns \<Rightarrow>
                    (case CreateServiceToken P e (req_Consumer req) scope ttl_ns v of
                       (Inl err, v1) \<Rightarrow> (handleVaultError err, v1)
                     | (Inr tokenStr, v1) \<Rightarrow>
                         (RespToken 200 tokenStr (rfc3339 (now e + ttl_ns)), v1))))"

definition token_info :: "Token \<Rightarrow> tokenInfo" where
  "token_info t =
     \<lparr>TokenPrefix = (if length (TokenStr t) > 8 then take 8 (TokenStr t) @ ''...''
                     else TokenStr t),
      ti_Consumer = Consumer t, ti_Scope = Scope t,
      ti_ExpiresAt = rfc3339 (ExpiresAt t), ti_CreatedAt = rfc3339 (CreatedAt t)\<rparr>"

definition handleListServiceTokens :: "env \<Rightarrow> ctx \<Rightarrow> Vault \<Rightarrow> response \<times> Vault" where
  "handleListServiceTokens e r v =
     (if \<not> isSessionAuth r then (sessionRequired, v)
      else case ListServiceTokens e v of
        (Inl err, v1) \<Rightarrow> (handleVaultError err, v1)
      | (Inr tokens, v1) \<Rightarrow> (RespTokens 200 (map token_info tokens), v1))"

definition handleRevokeServiceToken ::
  "prims \<Rightarrow> env \<Rightarrow> ctx \<Rightarrow> string \<Rightarrow> Vault \<Rightarrow> response \<times> Vault" where
  "handleRevokeServiceToken P e r prefix v =
     (if \<not> isSessionAuth r then (sessionRequired, v)
      else if prefix = [] then (RespError 400 ''invalid_request'' ''token prefix required'', v)
      else case RevokeServiceToken P e prefix v of
        (Inl err, v1) \<Rightarrow> (handleVaultError err, v1)
      | (Inr n, v1) \<Rightarrow>
          if n = 0 then (RespError 404 ''not_found'' ''no matching token found'', v1)
          else (RespRevoked 200 n, v1))"

definition handleGetByCategory ::
  "prims \<Rightarrow> env \<Rightarrow> ctx \<Rightarrow> string \<Rightarrow> Vault \<Rightarrow> response \<times> Vault" where
  "handleGetByCategory P e r category v =
     (if \<not> ValidCategoryName category
      then (RespError 400 ''invalid_request''
              ''invalid category name: only alphanumeric, underscore, hyphen allowed'', v)
      else
        (let scope = scopeFromRequest r
         in if \<not> ScopeAllowsCategory scope category then (scopeDenied, v)
            else case GetByCategory P e category v of
              (Inl err, v1) \<Rightarrow> (handleVaultError err, v1)
            | (Inr fs, v1) \<Rightarrow>
                (RespFields 200 (filter (\<lambda>f. ScopeAllows scope (ID f)) fs), v1)))"

section \<open>Predicates and values of the statements\<close>

text \<open>
  The vault is unlocked when it has a session whose key slice is not nil; \<open>the_key\<close>
  is then the content of the key array.
\<close>

definition unlocked :: "Vault \<Rightarrow> bool" where
  "unlocked v = (case session v of None \<Rightarrow> False | Some s \<Rightarrow> vaultKey s \<noteq> None)"

definition the_key :: "Vault \<Rightarrow> string" where
  "the_key v = (case session v of None \<Rightarrow> [] | Some s \<Rightarrow> (case vaultKey s of None \<Rightarrow> [] | Some a \<Rightarrow> mem v a))"

text \<open>The tier that \<open>Set\<close> stores for the tier it is given.\<close>

definition norm_tier :: "string \<Rightarrow> string" where
  "norm_tier t = (if t = [] then ''standard'' else t)"

text \<open>
  What \<open>Set\<close> stores as the value of a field: the base-64 text of the nonce
  followed by the sealed value, under the subkey of the category.
\<close>

definition sealed :: "prims \<Rightarrow> env \<Rightarrow> Vault \<Rightarrow> string \<Rightarrow> string \<Rightarrow> string" where
  "sealed P e v category val =
     (let nonce = map (rand_bytes e) [0..<nonceLen];
          subkey = DeriveSubkey P (the_key v) (salt v) category
      in b64_encode P (nonce @ gcm_seal P subkey nonce val))"

text \<open>
  The invariant of the field table: the category column of a row is the part of its
  identifier before the first dot.
\<close>

definition fields_wf :: "DB \<Rightarrow> bool" where
  "fields_wf d = list_all (\<lambda>r. Category r = id_prefix (ID r)) (vault_fields d)"

text \<open>
  What the theorems ask of the primitives. AES-GCM with a 32-byte key and a 12-byte
  nonce opens what it sealed, and the sealed text is 16 bytes (the tag) longer than the
  message. Base 64 decodes what it encoded.
\<close>

definition gcm_correct :: "prims \<Rightarrow> bool" where
  "gcm_correct P =
     (\<forall>key nonce m. length key = 32 \<and> length nonce = 12 \<longrightarrow>
        gcm_open P key nonce (gcm_seal P key nonce m) = Some m \<and>
        length (gcm_seal P key nonce m) = length m + 16)"

definition b64_correct :: "prims \<Rightarrow> bool" where
  "b64_correct P = (\<forall>x. b64_decode P (b64_encode P x) = Some x)"

text \<open>The row that \<open>SetField\<close> leaves for an identifier, given the row before.\<close>

definition upsert_row :: "Field \<Rightarrow> Field option \<Rightarrow> Field" where
  "upsert_row f old =
     (case old of
        None \<Rightarrow> f\<lparr>UpdatedAt := rfc3339 (UpdatedAt f), Version := 1\<rparr>
      | Some r \<Rightarrow> r\<lparr>Value := Value f,
                     Sensitivity := (if Sensitivity f \<noteq> [] then Sensitivity f else Sensitivity r),
                     UpdatedAt := rfc3339 (UpdatedAt f),
                     Version := Version r + 1\<rparr>)"

text \<open>
  Stand-ins for the primitives and a small unlocked vault, on which the theorems are
  run: a seal that appends 16 bytes of the key as the tag, identity encodings, and a
  digest that is the first 32 bytes of its input, padded with zeros.
\<close>

definition test_prims :: prims where
  "test_prims =
     \<lparr>sha256 = (\<lambda>x. take 32 (x @ replicate 32 (CHR 0x00))),
      argon2id = (\<lambda>c s. take 32 (c @ s @ replicate 32 (CHR 0x00))),
      hkdf_sha256 = (\<lambda>k s i n. (k @ s @ i @ replicate 32 (CHR 0x00)) ! n),
      gcm_seal = (\<lambda>k n m. m @ take 16 k),
      gcm_open = (\<lambda>k n c. if 16 \<le> length c \<and> drop (length c - 16) c = take 16 k
                           then Some (take (length c - 16) c) else None),
      b64_encode = (\<lambda>x. x),
      b64_decode = Some,
      parse_duration = (\<lambda>s. None)\<rparr>"

definition test_env :: env where
  "test_env = \<lparr>now = 1700000000000000000, rand_fail = False,
               rand_bytes = (\<lambda>n. CHR 0x07), id_bytes = (\<lambda>n. CHR 0x01)\<rparr>"

definition test_session :: Session where
  "test_session = \<lparr>token = ''0707'', vaultKey = Some 0, timer = Some 1700000000000000000,
                   ttl = defaultAutoLockDuration\<rparr>"

definition empty_db :: DB where
  "empty_db = \<lparr>vault_fields = [], vault_access_log = [], vault_tokens = [], vault_meta = []\<rparr>"

definition test_vault :: Vault where
  "test_vault = \<lparr>db = empty_db, session = Some test_session, salt = ''salt'',
                 mem = (\<lambda>a. replicate 32 (CHR 0x2A)), brk = 1\<rparr>"

text \<open>A vault that holds one field, and a locked vault that has been initialized.\<close>

definition ssn_vault :: Vault where
  "ssn_vault =
     test_vault\<lparr>db := empty_db\<lparr>vault_fields :=
       [\<lparr>ID = ''identity.ssn'', Category = ''identity'', FieldName = ''ssn'',
         Value = ''c2VhbGVk'', Sensitivity = ''standard'',
         UpdatedAt = 1600000000000000000, Version = 1\<rparr>]\<rparr>\<rparr>"

definition init_db :: DB where
  "init_db = empty_db\<lparr>vault_meta :=
     [(''salt'', ''0123456789abcdef0123456789abcdef''),
      (''secret_key_hash'', ''1111111111111111111111111111111111111111111111111111111111111111''),
      (''verification'', ''nonce-of-12-personal-vault-verificationtag-of-16-bytes'')]\<rparr>"

definition locked_vault :: Vault where
  "locked_vault = \<lparr>db = init_db, session = None, salt = [], mem = (\<lambda>a. []), brk = 0\<rparr>"

text \<open>A vault with a session and one service token, whose raw value is \<open>raw_token\<close>.\<close>

definition raw_token :: string where
  "raw_token = ''a3f1a3f1a3f1a3f1a3f1a3f1a3f1a3f1b4e2b4e2b4e2b4e2b4e2b4e2b4e2b4e2''"

definition svc_vault :: Vault where
  "svc_vault =
     test_vault\<lparr>db := empty_db\<lparr>vault_tokens :=
       [\<lparr>TokenStr = hashServiceToken test_prims raw_token, Consumer = ''life'',
         Scope = ''identity.*'', ExpiresAt = 1800000000000000000, Usage = ''service'',
         CreatedAt = 1700000000000000000\<rparr>]\<rparr>\<rparr>"

definition svc_token :: Token where
  "svc_token =
     \<lparr>TokenStr = hashServiceToken test_prims raw_token, Consumer = ''life'',
      Scope = ''identity.*'', ExpiresAt = 1800000000000000000, Usage = ''service'',
      CreatedAt = 1700000000000000000\<rparr>"

definition session_ctx :: ctx where
  "session_ctx = \<lparr>scopeKey = Some ''*'', sessionAuthKey = Some True\<rparr>"

text \<open>A vault with two fields of the category \<open>identity\<close> and one of another.\<close>

definition listing_vault :: Vault where
  "listing_vault =
     test_vault\<lparr>db := empty_db\<lparr>vault_fields :=
       [\<lparr>ID = ''identity.full_name'', Category = ''identity'', FieldName = ''full_name'',
         Value = ''nonce-12byteJane****************'', Sensitivity = ''standard'',
         UpdatedAt = 1600000000000000000, Version = 1\<rparr>,
        \<lparr>ID = ''financial.income'', Category = ''financial'', FieldName = ''income'',
         Value = ''nonce-12byte100****************'', Sensitivity = ''sensitive'',
         UpdatedAt = 1600000000000000000, Version = 1\<rparr>,
        \<lparr>ID = ''identity.dob'', Category = ''identity'', FieldName = ''dob'',
         Value = ''nonce-12byte1990****************'', Sensitivity = ''standard'',
         UpdatedAt = 1600000000000000000, Version = 2\<rparr>]\<rparr>\<rparr>"

definition dob_ctx :: ctx where
  "dob_ctx = \<lparr>scopeKey = Some ''identity.dob'', sessionAuthKey = Some False\<rparr>"

section \<open>The scope grammar\<close>

text \<open>A valid identifier is a category, a dot and a name, with no dot in either part.\<close>

lemma id_char_not_dot: "id_char c \<Longrightarrow> c \<noteq> CHR ''.''"
  by (auto simp: id_char_def)

lemma valid_id_shape:
  assumes "ValidateFieldID fid = None"
  obtains cat name where "fid = cat @ CHR ''.'' # name" "validIDPart cat" "validIDPart name"
proof -
  from assms obtain cat name where sp: "SplitN2 fid (CHR ''.'') = [cat, name]"
    and v: "validIDPart cat" "validIDPart name"
    by (auto simp: ValidateFieldID_def split: list.splits if_splits)
  from sp obtain x where d: "dropWhile (\<lambda>c. c \<noteq> CHR ''.'') fid = x # name"
    and t: "takeWhile (\<lambda>c. c \<noteq> CHR ''.'') fid = cat"
    by (auto simp: SplitN2_def split: list.splits)
  from d have "x = CHR ''.''"
    by (metis (mono_tags, lifting) hd_dropWhile list.sel(1) list.distinct(1))
  with d t have "fid = cat @ CHR ''.'' # name"
    by (metis takeWhile_dropWhile_id)
  with v show ?thesis using that by blast
qed

lemma validIDPart_no_dot: "validIDPart s \<Longrightarrow> CHR ''.'' \<notin> set s"
  by (auto simp: validIDPart_def list_all_iff dest: id_char_not_dot)

lemma takeWhile_no_dot:
  "CHR ''.'' \<notin> set cat \<Longrightarrow> takeWhile (\<lambda>c. c \<noteq> CHR ''.'') (cat @ CHR ''.'' # name) = cat"
  by (induction cat) auto

lemma id_prefix_valid:
  "CHR ''.'' \<notin> set cat \<Longrightarrow> id_prefix (cat @ CHR ''.'' # name) = cat"
  by (simp add: id_prefix_def takeWhile_no_dot)

lemma HasPrefix_iff: "HasPrefix s p \<longleftrightarrow> (\<exists>r. s = p @ r)"
  by (metis HasPrefix_def append_eq_conv_conj)

lemma category_match_valid:
  assumes "CHR ''.'' \<notin> set cat" "CHR ''.'' \<notin> set name"
  shows "HasPrefix (cat @ CHR ''.'' # name) (c @ ''.'') \<longleftrightarrow> cat = c"
proof
  assume "HasPrefix (cat @ CHR ''.'' # name) (c @ ''.'')"
  then obtain r where e: "cat @ CHR ''.'' # name = c @ CHR ''.'' # r"
    by (auto simp: HasPrefix_iff)
  let ?dots = "\<lambda>s. length (filter (\<lambda>x. x = CHR ''.'') s)"
  have l: "?dots (cat @ CHR ''.'' # name) = 1"
    using assms by (auto simp: filter_empty_conv)
  have "CHR ''.'' \<notin> set c"
  proof
    assume "CHR ''.'' \<in> set c"
    then have "filter (\<lambda>x. x = CHR ''.'') c \<noteq> []"
      by (simp add: filter_empty_conv)
    then have "0 < ?dots c" by simp
    then have "1 < ?dots (c @ CHR ''.'' # r)" by simp
    with l e show False by simp
  qed
  then have "takeWhile (\<lambda>x. x \<noteq> CHR ''.'') (c @ CHR ''.'' # r) = c"
    by (rule takeWhile_no_dot)
  moreover have "takeWhile (\<lambda>x. x \<noteq> CHR ''.'') (cat @ CHR ''.'' # name) = cat"
    using assms(1) by (rule takeWhile_no_dot)
  ultimately show "cat = c" using e by simp
next
  assume "cat = c"
  then show "HasPrefix (cat @ CHR ''.'' # name) (c @ ''.'')"
    by (simp add: HasPrefix_def)
qed

lemma TrimSpace_Nil: "TrimSpace [] = []"
  by (simp add: TrimSpace_def leading_space_def trailing_space_def space_runes_def
      HasPrefix_def HasSuffix_def)

lemma scope_loop_list_ex:
  assumes "ValidateFieldID fid = None"
  shows "scope_loop ps fid = list_ex (\<lambda>p. pattern_matches p fid) (map TrimSpace ps)"
proof -
  from assms obtain cat name where fid: "fid = cat @ CHR ''.'' # name"
    and v: "validIDPart cat" "validIDPart name"
    by (rule valid_id_shape)
  have nd: "CHR ''.'' \<notin> set cat" "CHR ''.'' \<notin> set name"
    using v by (simp_all add: validIDPart_no_dot)
  have m: "HasPrefix fid (c @ ''.'') \<longleftrightarrow> id_prefix fid = c" for c
    using category_match_valid [OF nd, of c] id_prefix_valid [OF nd(1), of name]
    unfolding fid by auto
  show ?thesis
    by (induction ps) (auto simp: Let_def pattern_matches_def m)
qed

text \<open>
  C4. For a valid field identifier, \<open>ScopeAllows\<close> is true exactly when one of the
  comma-separated, trimmed patterns of the scope matches the identifier as the grammar
  says: \<open>*\<close> matches every identifier, \<open>category.*\<close> matches the identifiers whose
  part before the first dot is the category, and any other pattern matches the identifier
  equal to it. The empty scope matches no field identifier.
\<close>

theorem ScopeAllows_refines_grammar:
  assumes "ValidateFieldID fid = None"
  shows "ScopeAllows scope fid = spec_allows scope fid \<and> \<not> ScopeAllows [] fid"
proof -
  have a: "ScopeAllows sc fid = spec_allows sc fid" for sc
    using assms by (simp add: ScopeAllows_def spec_allows_def scope_patterns_def scope_loop_list_ex)
  have "fid \<noteq> []"
    using assms by (auto simp: ValidateFieldID_def SplitN2_def)
  then have "\<not> spec_allows [] fid"
    by (auto simp: spec_allows_def scope_patterns_def TrimSpace_Nil pattern_matches_def HasSuffix_def)
  with a show ?thesis by simp
qed

theorem ScopeAllows_refines_grammar_witness:
  "ValidateFieldID ''identity.full_name'' = None \<and>
   ScopeAllows ''financial.*, identity.*'' ''identity.full_name'' \<and>
   spec_allows ''financial.*, identity.*'' ''identity.full_name'' \<and>
   \<not> ScopeAllows [] ''identity.full_name''"
proof -
  have v: "ValidateFieldID ''identity.full_name'' = None"
    by (simp add: ValidateFieldID_def SplitN2_def validIDPart_def id_char_def)
  have "spec_allows ''financial.*, identity.*'' ''identity.full_name''"
    by code_simp
  with v ScopeAllows_refines_grammar [OF v, of "''financial.*, identity.*''"]
  show ?thesis by simp
qed

text \<open>
  The hypothesis is needed: on strings that are no field identifiers the two differ. The
  handlers validate an identifier from the path before they ask \<open>ScopeAllows\<close>, and
  the identifiers of the store have passed \<open>Set\<close>.
\<close>

lemma ScopeAllows_beyond_identifiers:
  "ValidateFieldID ''a.b.c'' \<noteq> None \<and> ScopeAllows ''a.b.*'' ''a.b.c'' \<and>
   \<not> spec_allows ''a.b.*'' ''a.b.c'' \<and> ScopeAllows [] []"
  by code_simp

section \<open>Set, Get and the field table\<close>

lemma requireUnlocked_unlocked:
  "unlocked v \<Longrightarrow> requireUnlocked e v = (Inr (the_key v), TouchSession e v)"
  by (auto simp: unlocked_def requireUnlocked_def the_key_def TouchSession_def Let_def VaultKey_def Touch_def
      split: option.splits)

lemma dropWhile_no_dot:
  "CHR ''.'' \<notin> set cat \<Longrightarrow>
   dropWhile (\<lambda>c. c \<noteq> CHR ''.'') (cat @ CHR ''.'' # name) = CHR ''.'' # name"
  by (induction cat) auto

lemma SplitN2_valid:
  "CHR ''.'' \<notin> set cat \<Longrightarrow> SplitN2 (cat @ CHR ''.'' # name) (CHR ''.'') = [cat, name]"
  by (simp add: SplitN2_def dropWhile_no_dot takeWhile_no_dot)

lemma aes_key_ok_subkey: "aes_key_ok (DeriveSubkey P k s c)"
  by (simp add: aes_key_ok_def DeriveSubkey_def keyLen_def)

lemma salt_TouchSession [simp]: "salt (TouchSession e v) = salt v"
  and db_TouchSession [simp]: "db (TouchSession e v) = db v"
  and mem_TouchSession [simp]: "mem (TouchSession e v) = mem v"
  by (auto simp: TouchSession_def split: option.splits)

lemma Set_ok:
  assumes "CHR ''.'' \<notin> set cat" "ValidateFieldID (cat @ CHR ''.'' # name) = None"
    and "unlocked v" "\<not> rand_fail e" "validTiers (norm_tier t)"
  shows "Set P e (cat @ CHR ''.'' # name) val t v =
     (None, log_access e (audit_entry ''vault'' (cat @ CHR ''.'' # name) ''write'' [])
        ((TouchSession e v)\<lparr>db := SetField
            \<lparr>ID = cat @ CHR ''.'' # name, Category = cat, FieldName = name,
             Value = sealed P e v cat val, Sensitivity = norm_tier t,
             UpdatedAt = now e, Version = 0\<rparr> (db v)\<rparr>))"
  using assms
  by (simp add: Set_def requireUnlocked_unlocked SplitN2_valid EncryptToBase64_def Encrypt_def
      aes_key_ok_subkey rand_Read_def sealed_def Let_def norm_tier_def)

lemma find_map_update:
  assumes "\<And>r. ID (g r) = ID r"
  shows "find (\<lambda>r. ID r = i) (map (\<lambda>r. if ID r = i then g r else r) xs) =
         map_option g (find (\<lambda>r. ID r = i) xs)"
  using assms by (induction xs) auto

lemma find_append_new:
  "i \<notin> ID ` set xs \<Longrightarrow> ID x = i \<Longrightarrow> find (\<lambda>r. ID r = i) (xs @ [x]) = Some x"
  by (induction xs) auto

lemma find_None_iff_ID: "find (\<lambda>r. ID r = i) xs = None \<longleftrightarrow> i \<notin> ID ` set xs"
  by (induction xs) auto

lemma GetField_SetField:
  "GetField (ID f) (SetField f d) = Some (upsert_row f (GetField (ID f) d))"
proof (cases "ID f \<in> ID ` set (vault_fields d)")
  case True
  then obtain r where "find (\<lambda>r. ID r = ID f) (vault_fields d) = Some r"
    using find_None_iff_ID [of "ID f" "vault_fields d"] by (cases "find (\<lambda>r. ID r = ID f) (vault_fields d)") auto
  with True show ?thesis
    by (simp add: GetField_def SetField_def find_map_update upsert_row_def)
next
  case False
  then have "find (\<lambda>r. ID r = ID f) (vault_fields d) = None"
    by (simp add: find_None_iff_ID)
  with False show ?thesis
    by (simp add: GetField_def SetField_def find_append_new upsert_row_def)
qed

lemma vault_fields_LogAccess [simp]:
  "vault_fields (snd (LogAccess e a d)) = vault_fields d"
  by (simp add: LogAccess_def Let_def)

lemma GetField_log_access [simp]:
  "GetField i (db (log_access e a v)) = GetField i (db v)"
  by (simp add: GetField_def log_access_def)

lemma unlocked_log_access [simp]: "unlocked (log_access e a v) = unlocked v"
  and the_key_log_access [simp]: "the_key (log_access e a v) = the_key v"
  and salt_log_access [simp]: "salt (log_access e a v) = salt v"
  by (simp_all add: unlocked_def log_access_def the_key_def split: option.splits)

lemma unlocked_TouchSession [simp]: "unlocked (TouchSession e v) = unlocked v"
  and the_key_TouchSession [simp]: "the_key (TouchSession e v) = the_key v"
  by (auto simp: unlocked_def TouchSession_def the_key_def Touch_def split: option.splits)

lemma unlocked_db_update [simp]: "unlocked (v\<lparr>db := d\<rparr>) = unlocked v"
  and the_key_db_update [simp]: "the_key (v\<lparr>db := d\<rparr>) = the_key v"
  by (simp_all add: unlocked_def the_key_def split: option.splits)

lemma Decrypt_sealed:
  assumes "gcm_correct P" "b64_correct P"
  shows "DecryptFromBase64 P (DeriveSubkey P (the_key v) (salt v) cat) (sealed P e v cat val) = Inr val"
proof -
  let ?nonce = "map (rand_bytes e) [0..<nonceLen]"
  let ?key = "DeriveSubkey P (the_key v) (salt v) cat"
  have k: "length ?key = 32" by (simp add: DeriveSubkey_def keyLen_def)
  have n: "length ?nonce = 12" by (simp add: nonceLen_def)
  from assms(1) k n have o: "gcm_open P ?key ?nonce (gcm_seal P ?key ?nonce val) = Some val"
    and l: "length (gcm_seal P ?key ?nonce val) = length val + 16"
    unfolding gcm_correct_def by blast+
  have d: "b64_decode P (sealed P e v cat val) = Some (?nonce @ gcm_seal P ?key ?nonce val)"
    using assms(2) by (simp add: sealed_def b64_correct_def Let_def)
  show ?thesis
    unfolding DecryptFromBase64_def d using o l n k
    by (simp add: Decrypt_def aes_key_ok_def nonceLen_def)
qed

lemma Get_found:
  assumes "unlocked v" "GetField fid (db v) = Some f"
    "DecryptFromBase64 P (DeriveSubkey P (the_key v) (salt v) (Category f)) (Value f) = Inr pt"
  shows "Get P e fid v = (Inr (Some (field_info f pt)),
           log_access e (audit_entry ''vault'' fid ''read'' []) (TouchSession e v))"
  using assms by (simp add: Get_def requireUnlocked_unlocked)

text \<open>
  C1. On an unlocked vault whose field table satisfies its invariant, for a valid
  identifier, any value and a tier that is empty or one of the four, \<open>Set\<close> succeeds,
  and \<open>Get\<close> after it succeeds and returns a field whose value is the value set, whose
  category is the part of the identifier before the first dot, and whose sensitivity is
  the tier, or \<open>standard\<close> for the empty tier. The random source gives the nonce, and
  AES-GCM and base 64 invert as they should.
\<close>

theorem set_get_roundtrip:
  assumes "gcm_correct P" "b64_correct P"
    and "ValidateFieldID fid = None" "t = [] \<or> validTiers t"
    and "unlocked v" "fields_wf (db v)" "\<not> rand_fail e1"
  shows "\<exists>v1 fi v2.
           Set P e1 fid val t v = (None, v1) \<and>
           Get P e2 fid v1 = (Inr (Some fi), v2) \<and>
           Value fi = val \<and> Category fi = id_prefix fid \<and>
           Sensitivity fi = (if t = [] then ''standard'' else t)"
proof -
  from assms(3) obtain cat name where fid: "fid = cat @ CHR ''.'' # name"
    and vp: "validIDPart cat" "validIDPart name"
    by (rule valid_id_shape)
  have nd: "CHR ''.'' \<notin> set cat" using vp by (simp add: validIDPart_no_dot)
  have pre: "id_prefix fid = cat" using nd by (simp add: fid id_prefix_valid)
  have vt: "validTiers (norm_tier t)"
    using assms(4) by (auto simp: norm_tier_def validTiers_def)
  let ?f = "\<lparr>ID = fid, Category = cat, FieldName = name,
             Value = sealed P e1 v cat val, Sensitivity = norm_tier t,
             UpdatedAt = now e1, Version = 0\<rparr>"
  let ?v1 = "log_access e1 (audit_entry ''vault'' fid ''write'' [])
        ((TouchSession e1 v)\<lparr>db := SetField ?f (db v)\<rparr>)"
  have s: "Set P e1 fid val t v = (None, ?v1)"
    using Set_ok [OF nd assms(3) [unfolded fid] assms(5) assms(7) vt, of P val] by (simp add: fid)
  let ?r = "upsert_row ?f (GetField fid (db v))"
  have g: "GetField fid (db ?v1) = Some ?r"
    using GetField_SetField [of ?f "db v"] by simp
  have ne: "norm_tier t \<noteq> []" by (simp add: norm_tier_def)
  have cat_r: "Category ?r = cat"
  proof (cases "GetField fid (db v)")
    case None
    then show ?thesis by (simp add: upsert_row_def)
  next
    case (Some r0)
    then have "r0 \<in> set (vault_fields (db v))" "ID r0 = fid"
      by (auto simp: GetField_def find_Some_iff)
    with assms(6) have "Category r0 = cat"
      by (auto simp: fields_wf_def list_all_iff pre)
    with Some show ?thesis by (simp add: upsert_row_def)
  qed
  have val_r: "Value ?r = sealed P e1 v cat val" and sens_r: "Sensitivity ?r = norm_tier t"
    using ne by (auto simp: upsert_row_def split: option.splits)
  have u1: "unlocked ?v1" using assms(5) by simp
  have d: "DecryptFromBase64 P (DeriveSubkey P (the_key ?v1) (salt ?v1) (Category ?r)) (Value ?r) = Inr val"
    using Decrypt_sealed [OF assms(1,2), of v cat e1 val] by (simp add: cat_r val_r)
  have "Get P e2 fid ?v1 = (Inr (Some (field_info ?r val)),
           log_access e2 (audit_entry ''vault'' fid ''read'' []) (TouchSession e2 ?v1))"
    by (rule Get_found [OF u1 g d])
  moreover have "Value (field_info ?r val) = val" "Category (field_info ?r val) = id_prefix fid"
    "Sensitivity (field_info ?r val) = (if t = [] then ''standard'' else t)"
    using cat_r sens_r by (simp_all add: field_info_def pre norm_tier_def)
  ultimately show ?thesis using s by blast
qed

lemma db_requireUnlocked [simp]: "db (snd (requireUnlocked e v)) = db v"
  by (simp add: requireUnlocked_def Let_def split: option.splits)

lemma vault_fields_log_access [simp]:
  "vault_fields (db (log_access e a v)) = vault_fields (db v)"
  by (simp add: log_access_def)

lemma Set_calls_SetField:
  assumes "Set P e fid val s v = (None, v1)"
  shows "\<exists>f. vault_fields (db v1) = vault_fields (SetField f (db v)) \<and>
             Sensitivity f = (if s = [] then ''standard'' else s) \<and> Sensitivity f \<noteq> [] \<and>
             validTiers (Sensitivity f)"
proof -
  obtain r v0 where ru: "requireUnlocked e v = (r, v0)" by (cases "requireUnlocked e v")
  then have d: "db v0 = db v" using db_requireUnlocked [of e v] by simp
  from assms ru obtain cat name enc where
    v1: "v1 = log_access e (audit_entry ''vault'' fid ''write'' [])
          (v0\<lparr>db := SetField \<lparr>ID = fid, Category = cat, FieldName = name, Value = enc,
               Sensitivity = (if s = [] then ''standard'' else s),
               UpdatedAt = now e, Version = 0\<rparr> (db v)\<rparr>)"
    and vt: "validTiers (if s = [] then ''standard'' else s)"
    by (auto simp: Set_def Let_def d split: option.splits sum.splits list.splits if_splits)
  let ?f = "\<lparr>ID = fid, Category = cat, FieldName = name, Value = enc,
               Sensitivity = (if s = [] then ''standard'' else s),
               UpdatedAt = now e, Version = 0\<rparr>"
  have "vault_fields (db v1) = vault_fields (SetField ?f (db v))"
    by (simp add: v1)
  moreover have "Sensitivity ?f = (if s = [] then ''standard'' else s)" by simp
  moreover have "Sensitivity ?f \<noteq> []" by simp
  moreover have "validTiers (Sensitivity ?f)" using vt by simp
  ultimately show ?thesis by blast
qed

lemma Set_invalid_tier:
  assumes "ValidateFieldID fid = None" "unlocked v" "\<not> rand_fail e"
    and "s \<noteq> []" "\<not> validTiers s"
  shows "Set P e fid val s v = (Some ErrInvalidTier, TouchSession e v)"
proof -
  from assms(1) obtain cat name where fid: "fid = cat @ CHR ''.'' # name"
    and vp: "validIDPart cat" "validIDPart name"
    by (rule valid_id_shape)
  have nd: "CHR ''.'' \<notin> set cat" using vp by (simp add: validIDPart_no_dot)
  show ?thesis
    using assms nd unfolding fid
    by (simp add: Set_def requireUnlocked_unlocked SplitN2_valid EncryptToBase64_def Encrypt_def
      aes_key_ok_subkey rand_Read_def Let_def)
qed

lemma Set_valid_ok:
  assumes "ValidateFieldID fid = None" "unlocked v" "\<not> rand_fail e" "s = [] \<or> validTiers s"
  shows "\<exists>f. ID f = fid \<and> Sensitivity f = (if s = [] then ''standard'' else s) \<and>
           UpdatedAt f = now e \<and>
           Set P e fid val s v =
             (None, log_access e (audit_entry ''vault'' fid ''write'' [])
                ((TouchSession e v)\<lparr>db := SetField f (db v)\<rparr>))"
proof -
  from assms(1) obtain cat name where fid: "fid = cat @ CHR ''.'' # name"
    and vp: "validIDPart cat" "validIDPart name"
    by (rule valid_id_shape)
  have nd: "CHR ''.'' \<notin> set cat" using vp by (simp add: validIDPart_no_dot)
  have vt: "validTiers (norm_tier s)"
    using assms(4) by (auto simp: norm_tier_def validTiers_def)
  show ?thesis
    using Set_ok [OF nd assms(1) [unfolded fid] assms(2) assms(3) vt, of P val]
    by (auto simp: fid norm_tier_def intro!: exI)
qed

text \<open>
  C8. For \<open>Set\<close> on an unlocked vault with a valid identifier (and a nonce from the
  random source): the empty tier is stored as \<open>standard\<close>; whenever \<open>Set\<close> succeeds, the
  field it passed to \<open>SetField\<close> has a non-empty sensitivity, so the branch of the upsert
  that keeps the old sensitivity is not taken; and a non-empty tier outside the four
  fails with \<open>ErrInvalidTier\<close> and leaves the field table as it was.
\<close>

theorem set_normalizes_sensitivity:
  assumes "ValidateFieldID fid = None" "unlocked v" "\<not> rand_fail e"
  shows "(s = [] \<longrightarrow>
            (\<exists>v1 r. Set P e fid val s v = (None, v1) \<and> GetField fid (db v1) = Some r \<and>
                     Sensitivity r = ''standard'')) \<and>
         (\<forall>v1. Set P e fid val s v = (None, v1) \<longrightarrow>
            (\<exists>f. Sensitivity f \<noteq> [] \<and> vault_fields (db v1) = vault_fields (SetField f (db v)))) \<and>
         (s \<noteq> [] \<and> \<not> validTiers s \<longrightarrow>
            (\<exists>v1. Set P e fid val s v = (Some ErrInvalidTier, v1) \<and>
                  vault_fields (db v1) = vault_fields (db v)))"
proof (intro conjI impI allI)
  assume e: "s = []"
  then obtain f where f: "ID f = fid" "Sensitivity f = ''standard''"
    and st: "Set P e fid val s v =
             (None, log_access e (audit_entry ''vault'' fid ''write'' [])
                ((TouchSession e v)\<lparr>db := SetField f (db v)\<rparr>))"
    using Set_valid_ok [OF assms, of s P val] by auto
  have "GetField fid (db (log_access e (audit_entry ''vault'' fid ''write'' [])
                ((TouchSession e v)\<lparr>db := SetField f (db v)\<rparr>))) = Some (upsert_row f (GetField fid (db v)))"
    using GetField_SetField [of f "db v"] f by simp
  moreover have "Sensitivity (upsert_row f (GetField fid (db v))) = ''standard''"
    using f by (simp add: upsert_row_def split: option.splits)
  ultimately show "\<exists>v1 r. Set P e fid val s v = (None, v1) \<and> GetField fid (db v1) = Some r \<and>
                     Sensitivity r = ''standard''"
    using st by blast
next
  fix v1 assume "Set P e fid val s v = (None, v1)"
  from Set_calls_SetField [OF this]
  show "\<exists>f. Sensitivity f \<noteq> [] \<and> vault_fields (db v1) = vault_fields (SetField f (db v))"
    by blast
next
  assume "s \<noteq> [] \<and> \<not> validTiers s"
  then show "\<exists>v1. Set P e fid val s v = (Some ErrInvalidTier, v1) \<and>
                  vault_fields (db v1) = vault_fields (db v)"
    using Set_invalid_tier [OF assms, of s P val] by simp
qed


lemma test_prims_gcm: "gcm_correct test_prims"
  by (simp add: gcm_correct_def test_prims_def)

lemma test_prims_b64: "b64_correct test_prims"
  by (simp add: b64_correct_def test_prims_def)

lemma valid_full_name: "ValidateFieldID ''identity.full_name'' = None"
  by (simp add: ValidateFieldID_def SplitN2_def validIDPart_def id_char_def)

lemma test_vault_unlocked: "unlocked test_vault"
  by (simp add: unlocked_def test_vault_def test_session_def)

lemma test_vault_wf: "fields_wf (db test_vault)"
  by (simp add: fields_wf_def test_vault_def empty_db_def)

lemma test_env_rand: "\<not> rand_fail test_env"
  by (simp add: test_env_def)

theorem set_get_roundtrip_witness:
  "gcm_correct test_prims \<and> b64_correct test_prims \<and>
   ValidateFieldID ''identity.full_name'' = None \<and>
   unlocked test_vault \<and> fields_wf (db test_vault) \<and> \<not> rand_fail test_env \<and>
   (\<exists>v1 fi v2.
      Set test_prims test_env ''identity.full_name'' ''Cool Cucumber'' [] test_vault = (None, v1) \<and>
      Get test_prims test_env ''identity.full_name'' v1 = (Inr (Some fi), v2) \<and>
      Value fi = ''Cool Cucumber'' \<and> Category fi = ''identity'' \<and>
      Sensitivity fi = ''standard'')"
proof -
  have p: "id_prefix ''identity.full_name'' = ''identity''"
    by (simp add: id_prefix_def)
  show ?thesis
    using set_get_roundtrip [OF test_prims_gcm test_prims_b64 valid_full_name _
        test_vault_unlocked test_vault_wf test_env_rand,
        where t = "[]" and val = "''Cool Cucumber''" and ?e2.0 = test_env]
      test_prims_gcm test_prims_b64 valid_full_name test_vault_unlocked test_vault_wf
      test_env_rand
    by (simp add: p)
qed

theorem set_normalizes_sensitivity_witness:
  "ValidateFieldID ''identity.full_name'' = None \<and> unlocked test_vault \<and>
   \<not> rand_fail test_env \<and>
   (\<exists>v1 r. Set test_prims test_env ''identity.full_name'' ''Jane'' [] test_vault = (None, v1) \<and>
      GetField ''identity.full_name'' (db v1) = Some r \<and> Sensitivity r = ''standard'') \<and>
   (\<exists>v1. Set test_prims test_env ''identity.full_name'' ''Jane'' ''secret'' test_vault =
            (Some ErrInvalidTier, v1) \<and>
      vault_fields (db v1) = vault_fields (db test_vault))"
proof -
  have "\<not> validTiers ''secret''" by (simp add: validTiers_def)
  then show ?thesis
    using set_normalizes_sensitivity [OF valid_full_name test_vault_unlocked test_env_rand,
        where s = "[]" and P = test_prims and val = "''Jane''"]
      set_normalizes_sensitivity [OF valid_full_name test_vault_unlocked test_env_rand,
        where s = "''secret''" and P = test_prims and val = "''Jane''"]
      valid_full_name test_vault_unlocked test_env_rand
    by simp
qed


section \<open>Audit entries and unlocking\<close>

lemma SetSensitivity_log_unchanged:
  "vault_access_log (db (snd (SetSensitivity e fid tier v))) = vault_access_log (db v)"
  by (simp add: SetSensitivity_def requireUnlocked_def db_SetSensitivity_def Let_def
      split: option.splits)

text \<open>
  C6. \<open>SetSensitivity\<close> succeeds on a field of the vault, changes its tier from
  \<open>standard\<close> to \<open>critical\<close>, and leaves the audit log as it was: the sensitivity
  update appends no audit entry, where the specification has every mutating call append
  one. \<open>Set\<close> and \<open>Delete\<close>, which also change a row, do append theirs (the two
  lemmas after the theorem).
\<close>

theorem SetSensitivity_without_audit_entry:
  "fst (SetSensitivity test_env ''identity.ssn'' ''critical'' ssn_vault) = None \<and>
   map Sensitivity (vault_fields (db ssn_vault)) = [''standard''] \<and>
   map Sensitivity (vault_fields
      (db (snd (SetSensitivity test_env ''identity.ssn'' ''critical'' ssn_vault)))) = [''critical''] \<and>
   vault_access_log (db (snd (SetSensitivity test_env ''identity.ssn'' ''critical'' ssn_vault))) =
   vault_access_log (db ssn_vault)"
  by (simp add: SetSensitivity_def requireUnlocked_def db_SetSensitivity_def Let_def
      ssn_vault_def test_vault_def empty_db_def test_session_def test_env_def
      Touch_def VaultKey_def validTiers_def)

lemma log_access_appends:
  assumes "\<not> rand_fail e"
    and "hex_EncodeToString (map (id_bytes e) [0..<16]) \<notin> a_ID ` set (vault_access_log (db v))"
  shows "vault_access_log (db (log_access e (audit_entry c sc act pur) v)) =
         vault_access_log (db v) @
           [\<lparr>a_ID = hex_EncodeToString (map (id_bytes e) [0..<16]), a_Consumer = c, a_Scope = sc,
             Action = act, Purpose = pur, a_CreatedAt = rfc3339 (now e)\<rparr>]"
  using assms by (simp add: log_access_def LogAccess_def audit_entry_def Let_def)

lemma vault_access_log_TouchSession [simp]:
  "vault_access_log (db (TouchSession e v)) = vault_access_log (db v)"
  by simp

lemma Set_appends_audit_entry:
  assumes "ValidateFieldID fid = None" "unlocked v" "\<not> rand_fail e" "s = [] \<or> validTiers s"
    and "hex_EncodeToString (map (id_bytes e) [0..<16]) \<notin> a_ID ` set (vault_access_log (db v))"
  shows "fst (Set P e fid val s v) = None \<and>
         map Action (vault_access_log (db (snd (Set P e fid val s v)))) =
         map Action (vault_access_log (db v)) @ [''write'']"
proof -
  obtain f where "Set P e fid val s v =
             (None, log_access e (audit_entry ''vault'' fid ''write'' [])
                ((TouchSession e v)\<lparr>db := SetField f (db v)\<rparr>))"
    using Set_valid_ok [OF assms(1-4), of P val] by auto
  moreover have "vault_access_log (SetField f (db v)) = vault_access_log (db v)"
    by (simp add: SetField_def)
  ultimately show ?thesis
    using assms(3,5) by (simp add: log_access_appends)
qed

lemma Delete_appends_audit_entry:
  assumes "unlocked v" "\<not> rand_fail e"
    and "hex_EncodeToString (map (id_bytes e) [0..<16]) \<notin> a_ID ` set (vault_access_log (db v))"
  shows "fst (Delete e fid v) = None \<and>
         map Action (vault_access_log (db (snd (Delete e fid v)))) =
         map Action (vault_access_log (db v)) @ [''delete'']"
  using assms
  by (simp add: Delete_def requireUnlocked_unlocked log_access_appends DeleteField_def)

text \<open>
  C2. On an initialized, locked vault (the stored salt decodes from base 64, which is
  how \<open>Init\<close> stores it), for a secret key that decodes from hexadecimal: when the SHA-256 of the key is not the stored hash, or the
  stored verification text does not decrypt under the derived key, or it decrypts to
  something other than \<open>personal-vault-verification\<close>, \<open>Unlock\<close> returns
  \<open>ErrWrongPassword\<close> and the vault is what it was: no session, no new audit entry.
\<close>

theorem unlock_wrong_credentials:
  assumes "session v = None" "IsInitialized (db v)"
    and "b64_decode P (GetMeta ''salt'' (db v)) = Some salt_bytes"
    and "hex_DecodeString (TrimSpace secretKeyHex) = Some sk"
    and "hex_EncodeToString (sha256 P sk) \<noteq> GetMeta ''secret_key_hash'' (db v) \<or>
         (\<exists>err. DecryptFromBase64 P (DeriveVaultKey P password sk salt_bytes)
                  (GetMeta ''verification'' (db v)) = Inl err) \<or>
         (\<exists>pt. DecryptFromBase64 P (DeriveVaultKey P password sk salt_bytes)
                  (GetMeta ''verification'' (db v)) = Inr pt \<and>
               pt \<noteq> ''personal-vault-verification'')"
  shows "Unlock P e password secretKeyHex v = (Inl ErrWrongPassword, v) \<and>
         session (snd (Unlock P e password secretKeyHex v)) = None \<and>
         vault_access_log (db (snd (Unlock P e password secretKeyHex v))) =
         vault_access_log (db v)"
proof -
  have "Unlock P e password secretKeyHex v = (Inl ErrWrongPassword, v)"
    using assms
    by (auto simp: Unlock_def Let_def ConstantTimeCompare_def HashSecretKey_def
        verification_plaintext_def split: sum.splits)
  then show ?thesis using assms(1) by simp
qed

theorem unlock_wrong_credentials_witness:
  "session locked_vault = None \<and> IsInitialized (db locked_vault) \<and>
   b64_decode test_prims (GetMeta ''salt'' (db locked_vault)) =
     Some ''0123456789abcdef0123456789abcdef'' \<and>
   hex_DecodeString (TrimSpace '' 00000000000000000000000000000000 '') =
     Some (replicate 16 (CHR 0x00)) \<and>
   hex_EncodeToString (sha256 test_prims (replicate 16 (CHR 0x00))) \<noteq>
     GetMeta ''secret_key_hash'' (db locked_vault) \<and>
   Unlock test_prims test_env ''pw12345678'' '' 00000000000000000000000000000000 '' locked_vault =
     (Inl ErrWrongPassword, locked_vault) \<and>
   vault_access_log (db (snd (Unlock test_prims test_env ''pw12345678''
      '' 00000000000000000000000000000000 '' locked_vault))) = []"
proof -
  have a: "session locked_vault = None" by (simp add: locked_vault_def)
  have m: "GetMeta ''salt'' (db locked_vault) = ''0123456789abcdef0123456789abcdef''"
    "GetMeta ''secret_key_hash'' (db locked_vault) =
       ''1111111111111111111111111111111111111111111111111111111111111111''"
    by (simp_all add: locked_vault_def init_db_def empty_db_def GetMeta_def)
  have b: "IsInitialized (db locked_vault)" by (simp add: IsInitialized_def m)
  have c: "b64_decode test_prims (GetMeta ''salt'' (db locked_vault)) =
     Some ''0123456789abcdef0123456789abcdef''"
    by (simp add: m test_prims_def)
  have d: "hex_DecodeString (TrimSpace '' 00000000000000000000000000000000 '') =
     Some (replicate 16 (CHR 0x00))"
    by code_simp
  have h: "hex_EncodeToString (sha256 test_prims (replicate 16 (CHR 0x00))) \<noteq>
     GetMeta ''secret_key_hash'' (db locked_vault)"
    unfolding m by code_simp
  have l: "vault_access_log (db locked_vault) = []"
    by (simp add: locked_vault_def init_db_def empty_db_def)
  show ?thesis
    using unlock_wrong_credentials [OF a b c d disjI1 [OF h],
        where password = "''pw12345678''" and e = test_env]
      a b c d h l
    by simp
qed

section \<open>Destroying the session\<close>

lemma requireUnlocked_locked:
  "\<not> unlocked v \<Longrightarrow> requireUnlocked e v = (Inl ErrLocked, TouchSession e v)"
  by (auto simp: unlocked_def requireUnlocked_def TouchSession_def Let_def VaultKey_def Touch_def
      split: option.splits)

lemma zeroKey_live:
  "vaultKey s = Some a \<Longrightarrow>
   zeroKey (s, m) = (s\<lparr>vaultKey := None\<rparr>, m(a := replicate (length (m a)) (CHR 0x00)))"
  by (simp add: zeroKey_def)

lemma Destroy_live:
  "vaultKey s = Some a \<Longrightarrow>
   Destroy (s, m) = (s\<lparr>vaultKey := None, token := [], timer := None\<rparr>,
                     m(a := replicate (length (m a)) (CHR 0x00)))"
  by (simp add: Destroy_def zeroKey_live clear_token_def clear_timer_def)

lemma Session_autoLock_live:
  "vaultKey s = Some a \<Longrightarrow>
   Session_autoLock (s, m) = (s\<lparr>vaultKey := None, token := [], timer := None\<rparr>,
                     m(a := replicate (length (m a)) (CHR 0x00)))"
  by (simp add: Session_autoLock_def zeroKey_live clear_token_def clear_timer_def)

lemma trace_zero_before_token:
  assumes "vaultKey s = Some a"
    and "x \<in> set (Destroy_trace (s, m)) \<or> x \<in> set (autoLock_trace (s, m))"
    and "token (fst x) \<noteq> token s"
  shows "snd x a = replicate (length (m a)) (CHR 0x00)"
  using assms
  by (auto simp: Destroy_trace_def autoLock_trace_def zeroKey_live clear_token_def clear_timer_def)

lemma mem_log_access [simp]: "mem (log_access e en v) = mem v"
  and session_log_access [simp]: "session (log_access e en v) = session v"
  by (simp_all add: log_access_def)

lemma Lock_live:
  assumes "session v = Some s" "vaultKey s = Some a"
  shows "session (Lock e v) = None"
    and "mem (Lock e v) a = replicate (length (mem v a)) (CHR 0x00)"
  using assms by (simp_all add: Lock_def Let_def Destroy_live)

lemma autoLock_session_live:
  assumes "session v = Some s" "vaultKey s = Some a"
  shows "session (autoLock_session v) = Some (s\<lparr>vaultKey := None, token := [], timer := None\<rparr>)"
    and "mem (autoLock_session v) a = replicate (length (mem v a)) (CHR 0x00)"
  using assms by (simp_all add: autoLock_session_def Let_def Session_autoLock_live)

lemma autoLock_live:
  assumes "session v = Some s" "vaultKey s = Some a"
  shows "session (autoLock v) = None"
    and "mem (autoLock v) a = replicate (length (mem v a)) (CHR 0x00)"
  using assms by (simp_all add: autoLock_def lockFn_def autoLock_session_live)

lemma after_destroy:
  assumes "session v = Some s" "vaultKey s = Some a"
    and "v' = Lock e0 v \<or> v' = autoLock_session v \<or> v' = autoLock v"
  shows "mem v' a = replicate (length (mem v a)) (CHR 0x00)"
    and "\<not> unlocked v'" and "\<not> ValidateToken t v'"
    and "case session v' of None \<Rightarrow> True | Some s' \<Rightarrow> VaultKey s' (mem v') = None \<and> token s' = []"
  using assms
  by (auto simp: Lock_live autoLock_session_live autoLock_live unlocked_def ValidateToken_def
      Session_ValidateToken_def VaultKey_def)

lemma locked_TouchSession: "\<not> unlocked v \<Longrightarrow> \<not> unlocked (TouchSession e v)"
  by simp

lemma locked_refuses:
  assumes "\<not> unlocked v"
  shows "ValidateFieldID fid = None \<Longrightarrow> Set P e fid val tier v = (Some ErrLocked, TouchSession e v)"
    and "Get P e fid v = (Inl ErrLocked, TouchSession e v)"
    and "List e v = (Inl ErrLocked, TouchSession e v)"
    and "ListByCategory e cat v = (Inl ErrLocked, TouchSession e v)"
    and "GetByCategory P e cat v = (Inl ErrLocked, TouchSession e v)"
    and "GetContext P e v = (Inl ErrLocked, TouchSession e v)"
    and "Delete e fid v = (Some ErrLocked, TouchSession e v)"
    and "SetSensitivity e fid tier v = (Some ErrLocked, TouchSession e v)"
    and "CreateServiceToken P e consumer scope ttl_ns v = (Inl ErrLocked, TouchSession e v)"
    and "ListServiceTokens e v = (Inl ErrLocked, TouchSession e v)"
    and "RevokeServiceToken P e tok v = (Inl ErrLocked, TouchSession e v)"
  using assms
  by (simp_all add: Set_def Get_def List_def ListByCategory_def GetByCategory_def GetContext_def
      Delete_def SetSensitivity_def CreateServiceToken_def ListServiceTokens_def
      RevokeServiceToken_def requireUnlocked_locked)

text \<open>
  C3. A live session holds its key in the array at \<open>a\<close>. After \<open>Lock\<close> (which runs
  \<open>Session.Destroy\<close>), and after the idle timer has fired, both before and after the
  callback has run: the array is zero-filled; in the course of \<open>Destroy\<close> and of
  \<open>autoLock\<close> the array is zero-filled in every state in which the token is no longer
  the session's token (the key is zeroed before the token is cleared); \<open>VaultKey\<close> is
  nil; \<open>ValidateToken\<close> is false for every string; and every operation that needs the
  key returns \<open>ErrLocked\<close> (\<open>Set\<close> validates its identifier first) and leaves the
  vault locked, so this stays so until \<open>Unlock\<close> succeeds.
\<close>

theorem destroy_zeroizes_and_locks:
  assumes "session v = Some s" "vaultKey s = Some a"
    and "v' = Lock e0 v \<or> v' = autoLock_session v \<or> v' = autoLock v"
  shows "mem v' a = replicate (length (mem v a)) (CHR 0x00) \<and>
    last (Destroy_trace (s, mem v)) = Destroy (s, mem v) \<and>
    last (autoLock_trace (s, mem v)) = Session_autoLock (s, mem v) \<and>
    (\<forall>x \<in> set (Destroy_trace (s, mem v)) \<union> set (autoLock_trace (s, mem v)).
        token (fst x) \<noteq> token s \<longrightarrow> snd x a = replicate (length (mem v a)) (CHR 0x00)) \<and>
    VaultKey (fst (Destroy (s, mem v))) (snd (Destroy (s, mem v))) = None \<and>
    \<not> Session_ValidateToken (fst (Destroy (s, mem v))) t \<and>
    (case session v' of None \<Rightarrow> True
     | Some s' \<Rightarrow> VaultKey s' (mem v') = None \<and> \<not> Session_ValidateToken s' t) \<and>
    \<not> ValidateToken t v' \<and>
    fst (requireUnlocked e v') = Inl ErrLocked \<and>
    (ValidateFieldID fid = None \<longrightarrow> fst (Set P e fid val tier v') = Some ErrLocked) \<and>
    fst (Get P e fid v') = Inl ErrLocked \<and>
    fst (List e v') = Inl ErrLocked \<and>
    fst (ListByCategory e cat v') = Inl ErrLocked \<and>
    fst (GetByCategory P e cat v') = Inl ErrLocked \<and>
    fst (GetContext P e v') = Inl ErrLocked \<and>
    fst (Delete e fid v') = Some ErrLocked \<and>
    fst (SetSensitivity e fid tier v') = Some ErrLocked \<and>
    fst (CreateServiceToken P e consumer scope ttl_ns v') = Inl ErrLocked \<and>
    fst (ListServiceTokens e v') = Inl ErrLocked \<and>
    fst (RevokeServiceToken P e tok v') = Inl ErrLocked \<and>
    \<not> unlocked v' \<and> \<not> unlocked (snd (requireUnlocked e v')) \<and>
    \<not> unlocked (snd (Set P e fid val tier v')) \<and>
    \<not> unlocked (snd (Get P e fid v')) \<and>
    \<not> unlocked (snd (List e v')) \<and>
    \<not> unlocked (snd (ListByCategory e cat v')) \<and>
    \<not> unlocked (snd (GetByCategory P e cat v')) \<and>
    \<not> unlocked (snd (GetContext P e v')) \<and>
    \<not> unlocked (snd (Delete e fid v')) \<and>
    \<not> unlocked (snd (SetSensitivity e fid tier v')) \<and>
    \<not> unlocked (snd (CreateServiceToken P e consumer scope ttl_ns v')) \<and>
    \<not> unlocked (snd (ListServiceTokens e v')) \<and>
    \<not> unlocked (snd (RevokeServiceToken P e tok v'))"
proof -
  note ad = after_destroy [OF assms]
  have l: "\<not> unlocked v'" by (rule ad(2))
  note r = locked_refuses [OF l]
  have tr: "\<forall>x \<in> set (Destroy_trace (s, mem v)) \<union> set (autoLock_trace (s, mem v)).
        token (fst x) \<noteq> token s \<longrightarrow> snd x a = replicate (length (mem v a)) (CHR 0x00)"
    using trace_zero_before_token [OF assms(2), of _ "mem v"] by blast
  have d: "VaultKey (fst (Destroy (s, mem v))) (snd (Destroy (s, mem v))) = None"
    "\<not> Session_ValidateToken (fst (Destroy (s, mem v))) t"
    by (simp_all add: Destroy_live [OF assms(2)] VaultKey_def Session_ValidateToken_def)
  have la: "last (Destroy_trace (s, mem v)) = Destroy (s, mem v)"
    "last (autoLock_trace (s, mem v)) = Session_autoLock (s, mem v)"
    by (simp_all add: Destroy_trace_def Destroy_def autoLock_trace_def Session_autoLock_def)
  have sv: "case session v' of None \<Rightarrow> True
     | Some s' \<Rightarrow> VaultKey s' (mem v') = None \<and> \<not> Session_ValidateToken s' t"
    using ad(4) by (auto simp: Session_ValidateToken_def split: option.splits)
  have setl: "\<not> unlocked (snd (Set P e fid val tier v'))"
  proof (cases "ValidateFieldID fid")
    case None
    then show ?thesis using r(1) [of fid P e val tier] l by simp
  next
    case (Some err)
    then show ?thesis using l by (simp add: Set_def)
  qed
  show ?thesis
    using ad(1) la tr d sv ad(3) l setl
    by (simp add: r requireUnlocked_locked)
qed

theorem destroy_zeroizes_and_locks_witness:
  "session test_vault = Some test_session \<and> vaultKey test_session = Some 0 \<and>
   mem test_vault 0 = replicate 32 (CHR 0x2A) \<and>
   mem (Lock test_env test_vault) 0 = replicate 32 (CHR 0x00) \<and>
   mem (autoLock test_vault) 0 = replicate 32 (CHR 0x00) \<and>
   ValidateToken ''0707'' test_vault \<and>
   \<not> ValidateToken ''0707'' (Lock test_env test_vault) \<and>
   \<not> ValidateToken [] (autoLock test_vault) \<and>
   ValidateFieldID ''identity.full_name'' = None \<and>
   fst (Set test_prims test_env ''identity.full_name'' ''Jane'' [] (Lock test_env test_vault)) =
     Some ErrLocked \<and>
   fst (Get test_prims test_env ''identity.full_name'' (autoLock_session test_vault)) =
     Inl ErrLocked \<and>
   fst (RevokeServiceToken test_prims test_env ''0707'' (autoLock test_vault)) = Inl ErrLocked"
proof -
  have a: "session test_vault = Some test_session" by (simp add: test_vault_def)
  have b: "vaultKey test_session = Some 0" by (simp add: test_session_def)
  have m: "mem test_vault 0 = replicate 32 (CHR 0x2A)" by (simp add: test_vault_def)
  have t: "ValidateToken ''0707'' test_vault"
    by (simp add: ValidateToken_def Session_ValidateToken_def ConstantTimeCompare_def
        test_vault_def test_session_def)
  note th = destroy_zeroizes_and_locks [OF a b]
  show ?thesis
    using th [of "Lock test_env test_vault" test_env, OF disjI1 [OF refl],
        where t = "''0707''" and fid = "''identity.full_name''" and P = test_prims
          and e = test_env and val = "''Jane''" and tier = "[]"]
      th [of "autoLock_session test_vault" test_env, OF disjI2 [OF disjI1 [OF refl]],
        where fid = "''identity.full_name''" and P = test_prims and e = test_env]
      th [of "autoLock test_vault" test_env, OF disjI2 [OF disjI2 [OF refl]],
        where t = "[]" and tok = "''0707''" and P = test_prims and e = test_env]
      a b m t valid_full_name
    by simp
qed

section \<open>Routes for the session only\<close>

lemma handleVaultError_not_sessionRequired: "handleVaultError err \<noteq> sessionRequired"
  by (cases err) (simp_all add: handleVaultError_def sessionRequired_def)

lemma service_handlers_deny:
  assumes "sessionAuthKey r = Some False"
  shows "handleLock e1 r v1 = (sessionRequired, v1)"
    and "handleAuditLog r limitStr v1 = (sessionRequired, v1)"
    and "handleCreateServiceToken P e1 r body v1 = (sessionRequired, v1)"
    and "handleListServiceTokens e1 r v1 = (sessionRequired, v1)"
    and "handleRevokeServiceToken P e1 r tokarg v1 = (sessionRequired, v1)"
  using assms
  by (simp_all add: handleLock_def handleAuditLog_def handleCreateServiceToken_def
      handleListServiceTokens_def handleRevokeServiceToken_def isSessionAuth_def)

lemma other_responses_not_sessionRequired:
  "RespError 400 c m \<noteq> sessionRequired" "RespError 404 c m \<noteq> sessionRequired"
  "RespStatus n st \<noteq> sessionRequired" "RespAudit n es \<noteq> sessionRequired"
  "RespToken n tk ex \<noteq> sessionRequired" "RespTokens n ts \<noteq> sessionRequired"
  "RespRevoked n k \<noteq> sessionRequired"
  by (simp_all add: sessionRequired_def)

lemma session_handlers_admit:
  assumes "sessionAuthKey r = Some True"
  shows "handleLock e1 r v1 = (RespStatus 200 ''locked'', Lock e1 v1)"
    and "fst (handleAuditLog r limitStr v1) \<noteq> sessionRequired"
    and "fst (handleCreateServiceToken P e1 r body v1) \<noteq> sessionRequired"
    and "fst (handleListServiceTokens e1 r v1) \<noteq> sessionRequired"
    and "fst (handleRevokeServiceToken P e1 r tokarg v1) \<noteq> sessionRequired"
proof -
  have i: "isSessionAuth r" using assms by (simp add: isSessionAuth_def)
  note n = other_responses_not_sessionRequired handleVaultError_not_sessionRequired
  show "handleLock e1 r v1 = (RespStatus 200 ''locked'', Lock e1 v1)"
    using i by (simp add: handleLock_def)
  show "fst (handleAuditLog r limitStr v1) \<noteq> sessionRequired"
    using i by (simp add: handleAuditLog_def Let_def n)
  show "fst (handleCreateServiceToken P e1 r body v1) \<noteq> sessionRequired"
    using i by (simp add: handleCreateServiceToken_def Let_def n
        split: option.splits prod.splits sum.splits)
  show "fst (handleListServiceTokens e1 r v1) \<noteq> sessionRequired"
    using i by (simp add: handleListServiceTokens_def n split: prod.splits sum.splits)
  show "fst (handleRevokeServiceToken P e1 r tokarg v1) \<noteq> sessionRequired"
    using i by (simp add: handleRevokeServiceToken_def n split: prod.splits sum.splits)
qed

text \<open>
  C5. A request whose bearer token is not the session's token and is a valid service
  token leaves the authentication with the class service (and the token's scope,
  whatever it is); the authentication has refreshed the idle timer and logged
  \<open>api_access\<close>. On that request the handlers of \<open>POST /vault/lock\<close>,
  \<open>GET /vault/audit\<close> and the three \<open>/vault/tokens/service\<close> routes answer 403 with
  the constraint \<open>session_required\<close> and leave the vault as the authentication left it.
  A request whose bearer token is the session's token has the class session, and none of
  these handlers answers \<open>session_required\<close>.
\<close>

theorem service_class_is_denied:
  "(\<not> ValidateToken tok v \<and> ValidateServiceToken P e tok v = Some svc \<longrightarrow>
      (\<exists>r v1.
         authMiddleware P e (''Bearer '' @ tok) v = (Inr r, v1) \<and>
         r = \<lparr>scopeKey = Some (Scope svc), sessionAuthKey = Some False\<rparr> \<and>
         v1 = log_access e (audit_entry (Consumer svc) (Scope svc) ''api_access'' [])
                (TouchSession e v) \<and>
         handleLock e1 r v1 =
           (RespError 403 ''session_required''
              ''this operation requires a session token, not a service token'', v1) \<and>
         handleAuditLog r limitStr v1 = (sessionRequired, v1) \<and>
         handleCreateServiceToken P e1 r body v1 = (sessionRequired, v1) \<and>
         handleListServiceTokens e1 r v1 = (sessionRequired, v1) \<and>
         handleRevokeServiceToken P e1 r tokarg v1 = (sessionRequired, v1))) \<and>
   (ValidateToken tok v \<longrightarrow>
      (\<exists>r v1.
         authMiddleware P e (''Bearer '' @ tok) v = (Inr r, v1) \<and>
         r = \<lparr>scopeKey = Some ''*'', sessionAuthKey = Some True\<rparr> \<and>
         handleLock e1 r v1 = (RespStatus 200 ''locked'', Lock e1 v1) \<and>
         fst (handleAuditLog r limitStr v1) \<noteq> sessionRequired \<and>
         fst (handleCreateServiceToken P e1 r body v1) \<noteq> sessionRequired \<and>
         fst (handleListServiceTokens e1 r v1) \<noteq> sessionRequired \<and>
         fst (handleRevokeServiceToken P e1 r tokarg v1) \<noteq> sessionRequired))"
proof (intro conjI impI)
  assume a: "\<not> ValidateToken tok v \<and> ValidateServiceToken P e tok v = Some svc"
  let ?r = "\<lparr>scopeKey = Some (Scope svc), sessionAuthKey = Some False\<rparr>"
  let ?v1 = "log_access e (audit_entry (Consumer svc) (Scope svc) ''api_access'' [])
                (TouchSession e v)"
  have m: "authMiddleware P e (''Bearer '' @ tok) v = (Inr ?r, ?v1)"
    using a by (simp add: authMiddleware_def HasPrefix_def TrimPrefix_def)
  have k: "sessionAuthKey ?r = Some False" by simp
  show "\<exists>r v1.
         authMiddleware P e (''Bearer '' @ tok) v = (Inr r, v1) \<and>
         r = \<lparr>scopeKey = Some (Scope svc), sessionAuthKey = Some False\<rparr> \<and>
         v1 = log_access e (audit_entry (Consumer svc) (Scope svc) ''api_access'' [])
                (TouchSession e v) \<and>
         handleLock e1 r v1 =
           (RespError 403 ''session_required''
              ''this operation requires a session token, not a service token'', v1) \<and>
         handleAuditLog r limitStr v1 = (sessionRequired, v1) \<and>
         handleCreateServiceToken P e1 r body v1 = (sessionRequired, v1) \<and>
         handleListServiceTokens e1 r v1 = (sessionRequired, v1) \<and>
         handleRevokeServiceToken P e1 r tokarg v1 = (sessionRequired, v1)"
    using m by (simp add: service_handlers_deny [OF k] sessionRequired_def)
next
  assume a: "ValidateToken tok v"
  let ?r = "\<lparr>scopeKey = Some ''*'', sessionAuthKey = Some True\<rparr>"
  have m: "authMiddleware P e (''Bearer '' @ tok) v = (Inr ?r, TouchSession e v)"
    using a by (simp add: authMiddleware_def HasPrefix_def TrimPrefix_def)
  have k: "sessionAuthKey ?r = Some True" by simp
  show "\<exists>r v1.
         authMiddleware P e (''Bearer '' @ tok) v = (Inr r, v1) \<and>
         r = \<lparr>scopeKey = Some ''*'', sessionAuthKey = Some True\<rparr> \<and>
         handleLock e1 r v1 = (RespStatus 200 ''locked'', Lock e1 v1) \<and>
         fst (handleAuditLog r limitStr v1) \<noteq> sessionRequired \<and>
         fst (handleCreateServiceToken P e1 r body v1) \<noteq> sessionRequired \<and>
         fst (handleListServiceTokens e1 r v1) \<noteq> sessionRequired \<and>
         fst (handleRevokeServiceToken P e1 r tokarg v1) \<noteq> sessionRequired"
    using m by (simp add: session_handlers_admit [OF k])
qed

lemma svc_vault_tokens: "vault_tokens (db svc_vault) = [svc_token]"
  by (simp add: svc_vault_def svc_token_def empty_db_def)

lemma svc_vault_service: "ValidateServiceToken test_prims test_env raw_token svc_vault = Some svc_token"
  by (simp add: ValidateServiceToken_def GetToken_def svc_vault_tokens)
     (simp add: svc_token_def test_env_def)

lemma svc_vault_not_session: "\<not> ValidateToken raw_token svc_vault"
  by (simp add: ValidateToken_def Session_ValidateToken_def ConstantTimeCompare_def
      svc_vault_def test_vault_def test_session_def raw_token_def)

lemma svc_vault_session: "ValidateToken ''0707'' svc_vault"
  by (simp add: ValidateToken_def Session_ValidateToken_def ConstantTimeCompare_def
      svc_vault_def test_vault_def test_session_def)

theorem service_class_is_denied_witness:
  "\<not> ValidateToken raw_token svc_vault \<and>
   ValidateServiceToken test_prims test_env raw_token svc_vault = Some svc_token \<and>
   Scope svc_token = ''identity.*'' \<and>
   (\<exists>r v1.
      authMiddleware test_prims test_env (''Bearer '' @ raw_token) svc_vault = (Inr r, v1) \<and>
      handleLock test_env r v1 =
        (RespError 403 ''session_required''
           ''this operation requires a session token, not a service token'', v1) \<and>
      handleAuditLog r ''10'' v1 = (sessionRequired, v1) \<and>
      handleCreateServiceToken test_prims test_env r None v1 = (sessionRequired, v1) \<and>
      handleListServiceTokens test_env r v1 = (sessionRequired, v1) \<and>
      handleRevokeServiceToken test_prims test_env r raw_token v1 = (sessionRequired, v1)) \<and>
   ValidateToken ''0707'' svc_vault \<and>
   (\<exists>r v1.
      authMiddleware test_prims test_env (''Bearer '' @ ''0707'') svc_vault = (Inr r, v1) \<and>
      handleLock test_env r v1 = (RespStatus 200 ''locked'', Lock test_env v1))"
proof -
  have sc: "Scope svc_token = ''identity.*''" by (simp add: svc_token_def)
  note th = service_class_is_denied [where P = test_prims and e = test_env and v = svc_vault
      and ?e1.0 = test_env]
  have a: "\<exists>r v1.
      authMiddleware test_prims test_env (''Bearer '' @ raw_token) svc_vault = (Inr r, v1) \<and>
      handleLock test_env r v1 =
        (RespError 403 ''session_required''
           ''this operation requires a session token, not a service token'', v1) \<and>
      handleAuditLog r ''10'' v1 = (sessionRequired, v1) \<and>
      handleCreateServiceToken test_prims test_env r None v1 = (sessionRequired, v1) \<and>
      handleListServiceTokens test_env r v1 = (sessionRequired, v1) \<and>
      handleRevokeServiceToken test_prims test_env r raw_token v1 = (sessionRequired, v1)"
    using th [where tok = raw_token and svc = svc_token and limitStr = "''10''" and body = None
        and tokarg = raw_token, THEN conjunct1, rule_format,
        OF conjI [OF svc_vault_not_session svc_vault_service]]
    by blast
  have b: "\<exists>r v1.
      authMiddleware test_prims test_env (''Bearer '' @ ''0707'') svc_vault = (Inr r, v1) \<and>
      handleLock test_env r v1 = (RespStatus 200 ''locked'', Lock test_env v1)"
    using th [where tok = "''0707''", THEN conjunct2, rule_format, OF svc_vault_session]
    by blast
  show ?thesis
    using a b svc_vault_not_session svc_vault_service svc_vault_session sc by blast
qed

subsection \<open>Hexadecimal text is injective\<close>

lemma hex_digits_decode: "list_all (\<lambda>n. fromHexChar (hex_digit n) = Some n) [0..<16]"
  by code_simp

lemma fromHexChar_hex_digit: "n < 16 \<Longrightarrow> fromHexChar (hex_digit n) = Some n"
  using hex_digits_decode by (simp add: list_all_iff)

lemma hex_decode_encode: "hex_DecodeString (hex_EncodeToString bs) = Some bs"
proof (induction bs)
  case Nil
  then show ?case by (simp add: hex_EncodeToString_def)
next
  case (Cons b bs)
  have lt: "of_char b < (256::nat)" by simp
  then have d: "(of_char b :: nat) div 16 < 16" "(of_char b :: nat) mod 16 < 16"
    by (simp_all add: less_mult_imp_div_less)
  have c: "char_of (16 * ((of_char b :: nat) div 16) + of_char b mod 16) = b"
    by simp
  from Cons show ?case
    by (simp add: hex_EncodeToString_def hex_byte_def fromHexChar_hex_digit [OF d(1)]
        fromHexChar_hex_digit [OF d(2)] c del: mult_div_mod_eq)
qed

lemma hex_encode_inj: "hex_EncodeToString a = hex_EncodeToString b \<Longrightarrow> a = b"
  by (metis hex_decode_encode option.inject)

lemma length_hex_encode: "length (hex_EncodeToString bs) = 2 * length bs"
  by (induction bs) (simp_all add: hex_EncodeToString_def hex_byte_def)

subsection \<open>Revoking a service token\<close>

lemma DeleteToken_absent:
  "k \<notin> TokenStr ` set (vault_tokens d) \<Longrightarrow> DeleteToken k d = (0, d)"
proof -
  assume a: "k \<notin> TokenStr ` set (vault_tokens d)"
  then have "filter (\<lambda>t. TokenStr t = k) (vault_tokens d) = []"
    by (auto simp: filter_empty_conv)
  moreover from a have "filter (\<lambda>t. TokenStr t \<noteq> k) (vault_tokens d) = vault_tokens d"
    by (auto simp: filter_id_conv)
  ultimately show ?thesis by (simp add: DeleteToken_def)
qed

lemma DeleteToken_count_pos:
  "0 < fst (DeleteToken k d) \<Longrightarrow> k \<in> TokenStr ` set (vault_tokens d)"
  using DeleteToken_absent [of k d] by (cases "k \<in> TokenStr ` set (vault_tokens d)") auto

lemma stored_hash_is_of_raw:
  assumes "TokenStr ` set (vault_tokens d) \<subseteq> hashServiceToken P ` R"
    and "\<forall>raw\<in>R. sha256 P x = sha256 P raw \<longrightarrow> x = raw"
    and "hashServiceToken P x \<in> TokenStr ` set (vault_tokens d)"
  shows "x \<in> R"
proof -
  from assms(1,3) obtain raw where r: "raw \<in> R" "hashServiceToken P x = hashServiceToken P raw"
    by auto
  then have "sha256 P x = sha256 P raw"
    by (simp add: hashServiceToken_def hex_encode_inj)
  with assms(2) r(1) show ?thesis by auto
qed

text \<open>
  C10. \<open>RevokeServiceToken\<close> deletes the rows whose key is the hash of its argument
  (the handler answers 400 to an empty argument, which is left aside).
  The table holds the hashes of the raw tokens \<open>R\<close>, and SHA-256 does not collide
  between the argument and a raw token. Then a row is deleted only when the argument is
  one of the raw tokens; for any other argument no row is deleted and the endpoint
  answers 404 \<open>not_found\<close>. With raw tokens of 64 characters and digests of 32 bytes,
  none of which reads as a raw token in hexadecimal, the stored hash of a raw token and
  every proper prefix of the raw token or of its hash is such an argument.
\<close>

theorem revoke_needs_the_raw_token:
  assumes "unlocked v" "isSessionAuth r" "x \<noteq> []"
    and "TokenStr ` set (vault_tokens (db v)) \<subseteq> hashServiceToken P ` R"
    and "\<forall>raw\<in>R. sha256 P x = sha256 P raw \<longrightarrow> x = raw"
  shows "fst (RevokeServiceToken P e x v) =
           Inr (fst (DeleteToken (hashServiceToken P x) (db v))) \<and>
         (0 < fst (DeleteToken (hashServiceToken P x) (db v)) \<longrightarrow> x \<in> R) \<and>
         (x \<notin> R \<longrightarrow>
            RevokeServiceToken P e x v = (Inr 0, TouchSession e v) \<and>
            handleRevokeServiceToken P e r x v =
              (RespError 404 ''not_found'' ''no matching token found'', TouchSession e v)) \<and>
         ((\<forall>raw\<in>R. length raw = 64 \<and> length (sha256 P raw) = 32 \<and>
                    hashServiceToken P raw \<notin> R) \<and>
          raw0 \<in> R \<and>
          (x = hashServiceToken P raw0 \<or> (\<exists>n<64. x = take n raw0) \<or>
           (\<exists>n<64. x = take n (hashServiceToken P raw0))) \<longrightarrow> x \<notin> R)"
proof (intro conjI impI)
  show "fst (RevokeServiceToken P e x v) =
           Inr (fst (DeleteToken (hashServiceToken P x) (db v)))"
    using assms(1)
    by (simp add: RevokeServiceToken_def requireUnlocked_unlocked split: prod.splits)
next
  assume "0 < fst (DeleteToken (hashServiceToken P x) (db v))"
  then have "hashServiceToken P x \<in> TokenStr ` set (vault_tokens (db v))"
    by (rule DeleteToken_count_pos)
  then show "x \<in> R" by (rule stored_hash_is_of_raw [OF assms(4,5)])
next
  assume n: "x \<notin> R"
  then have "hashServiceToken P x \<notin> TokenStr ` set (vault_tokens (db v))"
    using stored_hash_is_of_raw [OF assms(4,5)] by blast
  then have d: "DeleteToken (hashServiceToken P x) (db v) = (0, db v)"
    by (rule DeleteToken_absent)
  have v: "(TouchSession e v)\<lparr>db := db v\<rparr> = TouchSession e v"
    by (simp add: TouchSession_def split: option.splits)
  show r: "RevokeServiceToken P e x v = (Inr 0, TouchSession e v)"
    using assms(1) by (simp add: RevokeServiceToken_def requireUnlocked_unlocked d v)
  show "handleRevokeServiceToken P e r x v =
              (RespError 404 ''not_found'' ''no matching token found'', TouchSession e v)"
    using assms(2,3) by (simp add: handleRevokeServiceToken_def r)
next
  assume h: "(\<forall>raw\<in>R. length raw = 64 \<and> length (sha256 P raw) = 32 \<and>
                    hashServiceToken P raw \<notin> R) \<and>
          raw0 \<in> R \<and>
          (x = hashServiceToken P raw0 \<or> (\<exists>n<64. x = take n raw0) \<or>
           (\<exists>n<64. x = take n (hashServiceToken P raw0)))"
  then have l0: "length raw0 = 64" "length (hashServiceToken P raw0) = 64"
    by (auto simp: hashServiceToken_def length_hex_encode)
  from h consider "x = hashServiceToken P raw0" | "length x < 64"
    using l0 by auto
  then show "x \<notin> R"
  proof cases
    case 1
    with h show ?thesis by auto
  next
    case 2
    with h show ?thesis by auto
  qed
qed

theorem revoke_needs_the_raw_token_witness:
  "unlocked svc_vault \<and> isSessionAuth session_ctx \<and>
   TokenStr ` set (vault_tokens (db svc_vault)) \<subseteq> hashServiceToken test_prims ` {raw_token} \<and>
   length raw_token = 64 \<and> length (sha256 test_prims raw_token) = 32 \<and>
   hashServiceToken test_prims raw_token \<noteq> raw_token \<and>
   sha256 test_prims (take 8 raw_token) \<noteq> sha256 test_prims raw_token \<and>
   sha256 test_prims (hashServiceToken test_prims raw_token) \<noteq> sha256 test_prims raw_token \<and>
   handleRevokeServiceToken test_prims test_env session_ctx (take 8 raw_token) svc_vault =
     (RespError 404 ''not_found'' ''no matching token found'', TouchSession test_env svc_vault) \<and>
   handleRevokeServiceToken test_prims test_env session_ctx
       (hashServiceToken test_prims raw_token) svc_vault =
     (RespError 404 ''not_found'' ''no matching token found'', TouchSession test_env svc_vault)"
proof -
  have u: "unlocked svc_vault"
    by (simp add: unlocked_def svc_vault_def test_vault_def test_session_def)
  have i: "isSessionAuth session_ctx" by (simp add: isSessionAuth_def session_ctx_def)
  have st: "TokenStr ` set (vault_tokens (db svc_vault)) \<subseteq> hashServiceToken test_prims ` {raw_token}"
    by (simp add: svc_vault_tokens svc_token_def)
  have l: "length raw_token = 64" by (simp add: raw_token_def)
  have ls: "length (sha256 test_prims raw_token) = 32" by (simp add: test_prims_def l)
  have hr: "hashServiceToken test_prims raw_token \<noteq> raw_token" by code_simp
  have c1: "sha256 test_prims (take 8 raw_token) \<noteq> sha256 test_prims raw_token" by code_simp
  have c2: "sha256 test_prims (hashServiceToken test_prims raw_token) \<noteq>
            sha256 test_prims raw_token" by code_simp
  have n1: "take 8 raw_token \<noteq> []" by (simp add: raw_token_def)
  have n2: "hashServiceToken test_prims raw_token \<noteq> []"
    using length_hex_encode [of "sha256 test_prims raw_token"] ls
    by (auto simp: hashServiceToken_def)
  have k: "\<forall>raw\<in>{raw_token}. length raw = 64 \<and> length (sha256 test_prims raw) = 32 \<and>
             hashServiceToken test_prims raw \<notin> {raw_token}"
    using l ls hr by simp
  have p: "\<exists>n<64. take 8 raw_token = take n raw_token" by (rule exI [of _ 8]) simp
  note t1 = revoke_needs_the_raw_token [OF u i n1 st, where e = test_env and ?raw0.0 = raw_token]
  note t2 = revoke_needs_the_raw_token [OF u i n2 st, where e = test_env and ?raw0.0 = raw_token]
  have a: "handleRevokeServiceToken test_prims test_env session_ctx (take 8 raw_token) svc_vault =
     (RespError 404 ''not_found'' ''no matching token found'', TouchSession test_env svc_vault)"
    using t1 c1 k p by simp
  have b: "handleRevokeServiceToken test_prims test_env session_ctx
       (hashServiceToken test_prims raw_token) svc_vault =
     (RespError 404 ''not_found'' ''no matching token found'', TouchSession test_env svc_vault)"
    using t2 c2 k by simp
  show ?thesis using u i st l ls hr c1 c2 a b by blast
qed

section \<open>The category listing\<close>

lemma space_runes_not_id:
  "list_all (\<lambda>w. w \<noteq> [] \<and> \<not> id_char (hd w) \<and> \<not> id_char (last w)) space_runes"
  by (simp add: space_runes_def id_char_def)

lemma HasPrefix_hd: "HasPrefix s w \<Longrightarrow> w \<noteq> [] \<Longrightarrow> hd s = hd w"
  by (metis HasPrefix_def hd_take length_greater_0_conv)

lemma HasSuffix_last: "HasSuffix s w \<Longrightarrow> w \<noteq> [] \<Longrightarrow> last s = last w"
  by (metis HasSuffix_def last_drop drop_eq_Nil not_le)

lemma leading_space_id: "id_char (hd s) \<Longrightarrow> leading_space s = 0"
proof -
  assume a: "id_char (hd s)"
  have "find (HasPrefix s) space_runes = None"
    using space_runes_not_id a
    by (auto simp: find_None_iff list_all_iff dest: HasPrefix_hd)
  then show ?thesis by (simp add: leading_space_def)
qed

lemma trailing_space_id: "id_char (last s) \<Longrightarrow> trailing_space s = 0"
proof -
  assume a: "id_char (last s)"
  have "find (HasSuffix s) space_runes = None"
    using space_runes_not_id a
    by (auto simp: find_None_iff list_all_iff dest: HasSuffix_last)
  then show ?thesis by (simp add: trailing_space_def)
qed

lemma TrimSpace_id: "id_char (hd s) \<Longrightarrow> id_char (last s) \<Longrightarrow> TrimSpace s = s"
  by (simp add: TrimSpace_def leading_space_id trailing_space_id)

lemma Split_no_sep: "sep \<notin> set s \<Longrightarrow> Split s sep = [s]"
  by (induction s) auto

lemma id_char_facts: "id_char c \<Longrightarrow> c \<noteq> CHR '','' \<and> c \<noteq> CHR ''*'' \<and> c \<noteq> CHR ''.''"
  by (auto simp: id_char_def)

lemma exact_scope:
  assumes "validIDPart cat" "validIDPart name"
  shows "ScopeAllows (cat @ ''.'' @ name) fid = (cat @ ''.'' @ name = fid)"
    and "ScopeAllowsCategory (cat @ ''.'' @ name) cat"
proof -
  let ?s = "cat @ ''.'' @ name"
  from assms have ne: "cat \<noteq> []" "name \<noteq> []"
    and ic: "\<forall>c\<in>set cat. id_char c" "\<forall>c\<in>set name. id_char c"
    by (auto simp: validIDPart_def list_all_iff)
  have h: "id_char (hd ?s)" using ne ic by (cases cat) auto
  have l: "id_char (last ?s)" using ne ic by simp
  have sp: "Split ?s (CHR '','') = [?s]"
    using ic by (intro Split_no_sep) (auto dest: id_char_facts)
  have ts: "TrimSpace ?s = ?s" using h l by (rule TrimSpace_id)
  have star: "?s \<noteq> ''*''" using ne by (cases cat) auto
  have suf: "\<not> HasSuffix ?s ''.*''"
  proof
    assume "HasSuffix ?s ''.*''"
    then have "last ?s = last ''.*''" by (rule HasSuffix_last) simp
    with l show False by (simp add: id_char_def)
  qed
  show "ScopeAllows ?s fid = (?s = fid)"
    using sp ts star suf by (simp add: ScopeAllows_def)
  show "ScopeAllowsCategory ?s cat"
    using sp ts star suf by (simp add: ScopeAllowsCategory_def HasPrefix_def)
qed

lemma decrypt_fields_ids: "decrypt_fields P k rows = Inr fs \<Longrightarrow> map ID fs = map ID rows"
proof (induction rows arbitrary: fs)
  case Nil
  then show ?case by simp
next
  case (Cons r rows)
  then show ?case
    by (auto simp: field_info_def split: sum.splits)
qed

lemma GetByCategory_ids:
  assumes "GetByCategory P e cat v = (Inr fs, v1)"
  shows "map ID fs = map ID (GetFieldsByCategory cat (db v))"
proof -
  obtain r v0 where ru: "requireUnlocked e v = (r, v0)" by (cases "requireUnlocked e v")
  then have d: "db v0 = db v" using db_requireUnlocked [of e v] by simp
  from assms ru show ?thesis
    by (auto simp: GetByCategory_def Let_def d split: sum.splits dest: decrypt_fields_ids)
qed

text \<open>
  C9. For a request to \<open>GET /vault/fields/category/{cat}\<close> with a valid category name,
  on which \<open>GetByCategory\<close> succeeds with the fields \<open>fs\<close> (one for each row of the
  category, in the order of the store): when the scope passes \<open>ScopeAllowsCategory\<close>,
  the response is 200 with those of \<open>fs\<close> whose identifier \<open>ScopeAllows\<close> allows, so its
  identifiers are exactly those of the rows of the category that the scope allows. A
  scope that is one exact pattern \<open>cat.name\<close> passes the category check, and its response
  holds only fields whose identifier is \<open>cat.name\<close>.
\<close>

theorem category_listing_is_filtered:
  assumes "ValidCategoryName cat" "GetByCategory P e cat v = (Inr fs, v1)"
  shows "(ScopeAllowsCategory (scopeFromRequest r) cat \<longrightarrow>
            handleGetByCategory P e r cat v =
              (RespFields 200 (filter (\<lambda>f. ScopeAllows (scopeFromRequest r) (ID f)) fs), v1) \<and>
            set (map ID (filter (\<lambda>f. ScopeAllows (scopeFromRequest r) (ID f)) fs)) =
              {fid. \<exists>row \<in> set (vault_fields (db v)).
                      ID row = fid \<and> Category row = cat \<and> ScopeAllows (scopeFromRequest r) fid}) \<and>
         (validIDPart name \<and> scopeFromRequest r = cat @ ''.'' @ name \<longrightarrow>
            ScopeAllowsCategory (scopeFromRequest r) cat \<and>
            handleGetByCategory P e r cat v =
              (RespFields 200 (filter (\<lambda>f. ID f = cat @ ''.'' @ name) fs), v1))"
proof (intro conjI impI)
  assume a: "ScopeAllowsCategory (scopeFromRequest r) cat"
  show "handleGetByCategory P e r cat v =
              (RespFields 200 (filter (\<lambda>f. ScopeAllows (scopeFromRequest r) (ID f)) fs), v1)"
    using assms a by (simp add: handleGetByCategory_def)
  have "set (map ID (filter (\<lambda>f. ScopeAllows (scopeFromRequest r) (ID f)) fs)) =
        {fid \<in> set (map ID fs). ScopeAllows (scopeFromRequest r) fid}"
    by auto
  also have "set (map ID fs) = {fid. \<exists>row \<in> set (vault_fields (db v)). ID row = fid \<and> Category row = cat}"
    unfolding GetByCategory_ids [OF assms(2)] by (auto simp: GetFieldsByCategory_def)
  finally show "set (map ID (filter (\<lambda>f. ScopeAllows (scopeFromRequest r) (ID f)) fs)) =
              {fid. \<exists>row \<in> set (vault_fields (db v)).
                      ID row = fid \<and> Category row = cat \<and> ScopeAllows (scopeFromRequest r) fid}"
    by auto
next
  assume b: "validIDPart name \<and> scopeFromRequest r = cat @ ''.'' @ name"
  have vc: "validIDPart cat" using assms(1) by (simp add: ValidCategoryName_def)
  note ex = exact_scope [OF vc conjunct1 [OF b]]
  show c: "ScopeAllowsCategory (scopeFromRequest r) cat"
    using ex(2) b by simp
  have "(\<lambda>f::Field. ScopeAllows (cat @ ''.'' @ name) (ID f)) = (\<lambda>f. ID f = cat @ ''.'' @ name)"
    using ex(1) by auto
  then show "handleGetByCategory P e r cat v =
              (RespFields 200 (filter (\<lambda>f. ID f = cat @ ''.'' @ name) fs), v1)"
    using assms c b by (simp add: handleGetByCategory_def)
qed

lemma listing_fields:
  "fst (GetByCategory test_prims test_env ''identity'' listing_vault) =
     Inr [\<lparr>ID = ''identity.dob'', Category = ''identity'', FieldName = ''dob'',
           Value = ''1990'', Sensitivity = ''standard'',
           UpdatedAt = 1600000000000000000, Version = 2\<rparr>,
          \<lparr>ID = ''identity.full_name'', Category = ''identity'', FieldName = ''full_name'',
           Value = ''Jane'', Sensitivity = ''standard'',
           UpdatedAt = 1600000000000000000, Version = 1\<rparr>]"
  by code_simp

theorem category_listing_is_filtered_witness:
  "ValidCategoryName ''identity'' \<and> validIDPart ''dob'' \<and>
   scopeFromRequest dob_ctx = ''identity'' @ ''.'' @ ''dob'' \<and>
   map ID (vault_fields (db listing_vault)) =
     [''identity.full_name'', ''financial.income'', ''identity.dob''] \<and>
   ScopeAllowsCategory (scopeFromRequest dob_ctx) ''identity'' \<and>
   fst (handleGetByCategory test_prims test_env dob_ctx ''identity'' listing_vault) =
     RespFields 200
       [\<lparr>ID = ''identity.dob'', Category = ''identity'', FieldName = ''dob'',
         Value = ''1990'', Sensitivity = ''standard'',
         UpdatedAt = 1600000000000000000, Version = 2\<rparr>]"
proof -
  have vc: "ValidCategoryName ''identity''"
    by (simp add: ValidCategoryName_def validIDPart_def id_char_def)
  have vn: "validIDPart ''dob''" by (simp add: validIDPart_def id_char_def)
  have sc: "scopeFromRequest dob_ctx = ''identity'' @ ''.'' @ ''dob''"
    by (simp add: scopeFromRequest_def dob_ctx_def)
  have ids: "map ID (vault_fields (db listing_vault)) =
     [''identity.full_name'', ''financial.income'', ''identity.dob'']"
    by (simp add: listing_vault_def empty_db_def)
  have g: "GetByCategory test_prims test_env ''identity'' listing_vault =
           (Inr [\<lparr>ID = ''identity.dob'', Category = ''identity'', FieldName = ''dob'',
           Value = ''1990'', Sensitivity = ''standard'',
           UpdatedAt = 1600000000000000000, Version = 2\<rparr>,
          \<lparr>ID = ''identity.full_name'', Category = ''identity'', FieldName = ''full_name'',
           Value = ''Jane'', Sensitivity = ''standard'',
           UpdatedAt = 1600000000000000000, Version = 1\<rparr>],
            snd (GetByCategory test_prims test_env ''identity'' listing_vault))"
    using listing_fields by (metis prod.collapse)
  show ?thesis
    using category_listing_is_filtered [OF vc g, where r = dob_ctx and name = "''dob''"]
      vc vn sc ids
    by simp
qed

section \<open>The invariant of the field table\<close>

text \<open>
  The empty table satisfies the invariant that the round trip of \<open>Set\<close> and \<open>Get\<close>
  assumes, and the operations that write the table keep it.
\<close>

lemma fields_wf_empty: "fields_wf empty_db"
  by (simp add: fields_wf_def empty_db_def)

lemma fields_wf_SetField:
  assumes "fields_wf d" "Category f = id_prefix (ID f)"
  shows "fields_wf (SetField f d)"
  using assms by (auto simp: fields_wf_def SetField_def list_all_iff)

lemma fields_wf_Set:
  assumes "fields_wf (db v)"
  shows "fields_wf (db (snd (Set P e fid val s v)))"
proof (cases "ValidateFieldID fid")
  case (Some err)
  then show ?thesis using assms by (simp add: Set_def)
next
  case None
  then obtain cat name where fid: "fid = cat @ CHR ''.'' # name"
    and vp: "validIDPart cat" "validIDPart name"
    by (rule valid_id_shape)
  have nd: "CHR ''.'' \<notin> set cat" using vp by (simp add: validIDPart_no_dot)
  have pre: "id_prefix fid = cat" using nd by (simp add: fid id_prefix_valid)
  have sp: "SplitN2 fid (CHR ''.'') = [cat, name]" using nd by (simp add: fid SplitN2_valid)
  obtain r v0 where ru: "requireUnlocked e v = (r, v0)" by (cases "requireUnlocked e v")
  then have d: "db v0 = db v" using db_requireUnlocked [of e v] by simp
  have w: "fields_wf (SetField \<lparr>ID = fid, Category = cat, FieldName = name, Value = enc,
             Sensitivity = t, UpdatedAt = u, Version = 0\<rparr> (db v))" for enc t u
    using assms pre by (intro fields_wf_SetField) simp_all
  have l: "fields_wf (db (log_access e a x)) = fields_wf (db x)" for a x
    by (simp add: fields_wf_def)
  show ?thesis
    using None ru assms w
    by (auto simp: Set_def sp Let_def d l split: sum.splits)
qed

lemma fields_wf_Delete: "fields_wf (db v) \<Longrightarrow> fields_wf (db (snd (Delete e fid v)))"
  by (auto simp: Delete_def requireUnlocked_def DeleteField_def fields_wf_def list_all_iff
      Let_def split: option.splits)

lemma fields_wf_SetSensitivity:
  "fields_wf (db v) \<Longrightarrow> fields_wf (db (snd (SetSensitivity e fid tier v)))"
  by (auto simp: SetSensitivity_def requireUnlocked_def db_SetSensitivity_def fields_wf_def
      list_all_iff Let_def split: option.splits)

text \<open>
  \<open>SetSensitivity\<close> rewrites the tier and the time of a row and leaves its version:
  the version counts the calls of \<open>Set\<close> on the identifier.
\<close>

lemma SetSensitivity_keeps_version:
  "map Version (vault_fields (db (snd (SetSensitivity e fid tier v)))) =
   map Version (vault_fields (db v))"
  by (simp add: SetSensitivity_def requireUnlocked_def db_SetSensitivity_def Let_def o_def
      split: option.splits)

section \<open>Unlocking\<close>

text \<open>
  With the right secret key and password \<open>Unlock\<close> gives a token that validates and
  leaves the vault unlocked, with the derived key in the session.
\<close>

lemma Unlock_succeeds:
  assumes "session v = None" "IsInitialized (db v)"
    and "b64_decode P (GetMeta ''salt'' (db v)) = Some salt_bytes"
    and "hex_DecodeString (TrimSpace secretKeyHex) = Some sk"
    and "hex_EncodeToString (sha256 P sk) = GetMeta ''secret_key_hash'' (db v)"
    and "DecryptFromBase64 P (DeriveVaultKey P password sk salt_bytes)
           (GetMeta ''verification'' (db v)) = Inr ''personal-vault-verification''"
    and "\<not> rand_fail e"
  shows "fst (Unlock P e password secretKeyHex v) =
           Inr (hex_EncodeToString (map (rand_bytes e) [0..<32])) \<and>
         unlocked (snd (Unlock P e password secretKeyHex v)) \<and>
         the_key (snd (Unlock P e password secretKeyHex v)) =
           DeriveVaultKey P password sk salt_bytes \<and>
         ValidateToken (hex_EncodeToString (map (rand_bytes e) [0..<32]))
           (snd (Unlock P e password secretKeyHex v))"
proof -
  have "length (hex_EncodeToString (map (rand_bytes e) [0..<32])) = 64"
    by (simp add: length_hex_encode)
  then have ne: "hex_EncodeToString (map (rand_bytes e) [0..<32]) \<noteq> []"
    by auto
  show ?thesis
    using assms ne
    by (simp add: Unlock_def Let_def ConstantTimeCompare_def HashSecretKey_def
        verification_plaintext_def NewSession_def rand_Read_def Session_Token_def
        unlocked_def the_key_def ValidateToken_def Session_ValidateToken_def)
qed

end
